theory Spec2Isabelle
  imports Main "HOL-Library.Word"
begin

unbundle bit_operations_syntax

section \<open>External constants and types\<close>

text \<open>
  The program \<^verbatim>\<open>gpioctrl.c\<close> is written against three external libraries: libgpiod
  (v1.6.3, \<^verbatim>\<open>gpiod.h\<close>), the variable server (\<^verbatim>\<open>varserver.h\<close>) and tjson
  (\<^verbatim>\<open>json.h\<close>).  Their enumerators are fixed here with the values of those headers;
  the answers of their functions are left open (record \<open>env\<close> below).

  The \<^verbatim>\<open>errno\<close> codes the program returns, with their Linux values.
\<close>

definition EOK :: int where "EOK = 0"
definition ENOENT :: int where "ENOENT = 2"
definition EIO :: int where "EIO = 5"
definition EINVAL :: int where "EINVAL = 22"
definition ENOTSUP :: int where "ENOTSUP = 95"

text \<open>
  A \<^verbatim>\<open>VAR_HANDLE\<close> is an unsigned number, \<^verbatim>\<open>VAR_INVALID\<close> is 0.  Pointers to the opaque
  libgpiod objects (\<^verbatim>\<open>struct gpiod_line *\<close>, \<^verbatim>\<open>struct gpiod_chip *\<close>) and the variable
  server handle are addresses, \<^verbatim>\<open>NULL\<close> is 0.
\<close>

type_synonym VAR_HANDLE = nat
type_synonym gpiod_line = nat
type_synonym gpiod_chip = nat
type_synonym VARSERVER_HANDLE = nat

definition VAR_INVALID :: VAR_HANDLE where "VAR_INVALID = 0"
definition NULL :: nat where "NULL = 0"

text \<open>Enumerators of \<^verbatim>\<open>gpiod.h\<close> (libgpiod 1.6).\<close>

definition GPIOD_LINE_DIRECTION_INPUT :: int where "GPIOD_LINE_DIRECTION_INPUT = 1"
definition GPIOD_LINE_DIRECTION_OUTPUT :: int where "GPIOD_LINE_DIRECTION_OUTPUT = 2"

definition GPIOD_LINE_REQUEST_DIRECTION_INPUT :: int where
  "GPIOD_LINE_REQUEST_DIRECTION_INPUT = 2"
definition GPIOD_LINE_REQUEST_DIRECTION_OUTPUT :: int where
  "GPIOD_LINE_REQUEST_DIRECTION_OUTPUT = 3"
definition GPIOD_LINE_REQUEST_EVENT_FALLING_EDGE :: int where
  "GPIOD_LINE_REQUEST_EVENT_FALLING_EDGE = 4"
definition GPIOD_LINE_REQUEST_EVENT_RISING_EDGE :: int where
  "GPIOD_LINE_REQUEST_EVENT_RISING_EDGE = 5"
definition GPIOD_LINE_REQUEST_EVENT_BOTH_EDGES :: int where
  "GPIOD_LINE_REQUEST_EVENT_BOTH_EDGES = 6"

definition GPIOD_LINE_REQUEST_FLAG_OPEN_DRAIN :: int where
  "GPIOD_LINE_REQUEST_FLAG_OPEN_DRAIN = 1"
definition GPIOD_LINE_REQUEST_FLAG_OPEN_SOURCE :: int where
  "GPIOD_LINE_REQUEST_FLAG_OPEN_SOURCE = 2"
definition GPIOD_LINE_REQUEST_FLAG_ACTIVE_LOW :: int where
  "GPIOD_LINE_REQUEST_FLAG_ACTIVE_LOW = 4"
definition GPIOD_LINE_REQUEST_FLAG_BIAS_DISABLE :: int where
  "GPIOD_LINE_REQUEST_FLAG_BIAS_DISABLE = 8"
definition GPIOD_LINE_REQUEST_FLAG_BIAS_PULL_DOWN :: int where
  "GPIOD_LINE_REQUEST_FLAG_BIAS_PULL_DOWN = 16"
definition GPIOD_LINE_REQUEST_FLAG_BIAS_PULL_UP :: int where
  "GPIOD_LINE_REQUEST_FLAG_BIAS_PULL_UP = 32"

definition GPIOD_LINE_EVENT_RISING_EDGE :: int where "GPIOD_LINE_EVENT_RISING_EDGE = 1"
definition GPIOD_LINE_EVENT_FALLING_EDGE :: int where "GPIOD_LINE_EVENT_FALLING_EDGE = 2"

definition GPIOD_LINE_BULK_MAX_LINES :: nat where "GPIOD_LINE_BULK_MAX_LINES = 64"

text \<open>
  A \<^verbatim>\<open>VarObject\<close> of the variable server: the program reads and writes its type tag,
  its length and the \<^verbatim>\<open>uint16_t\<close> member \<^verbatim>\<open>val.ui\<close> of its value union.
\<close>

datatype VarType =
    VARTYPE_INVALID | VARTYPE_UINT16 | VARTYPE_INT16 | VARTYPE_UINT32 | VARTYPE_INT32
  | VARTYPE_UINT64 | VARTYPE_INT64 | VARTYPE_FLOAT | VARTYPE_STR | VARTYPE_BLOB

record VarObject =
  vtype :: VarType
  len :: nat
  val_ui :: "16 word"

datatype NotificationType = NOTIFY_MODIFIED | NOTIFY_CALC | NOTIFY_PRINT

section \<open>Private definitions: the line, the chip, the controller state\<close>

record gpiod_line_request_config =
  consumer :: "string option"
  request_type :: int
  flags :: int

text \<open>
  \<^verbatim>\<open>struct _gpio\<close>.  The member \<^verbatim>\<open>value\<close> is the field \<open>gpio_value\<close>; the link
  \<^verbatim>\<open>pNext\<close> is the list the line stands in.
\<close>

record GPIO =
  pLine :: gpiod_line
  hVar :: VAR_HANDLE
  line_num :: int
  name :: string
  gpio_value :: int
  direction :: int
  PWM :: bool
  event_type :: int
  request :: gpiod_line_request_config

text \<open>
  \<^verbatim>\<open>struct _gpio_chip\<close>: the singly linked list \<^verbatim>\<open>pFirstLine\<close> .. \<^verbatim>\<open>pLastLine\<close>, always
  appended to at its tail, is the list \<open>Lines\<close>.
\<close>

record GPIOChip =
  chip_name :: string
  pChip :: gpiod_chip
  Lines :: "GPIO list"

text \<open>
  \<^verbatim>\<open>struct _gpioctrl_state\<close>: the list \<^verbatim>\<open>pFirstGPIOChip\<close> .. \<^verbatim>\<open>pLastGPIOChip\<close> is
  \<open>GPIOChips\<close>, the bulk \<^verbatim>\<open>monitoredLines\<close> (an array with its count
  \<^verbatim>\<open>num_lines\<close>) is the list of its first \<^verbatim>\<open>num_lines\<close> entries.
\<close>

record GPIOCtrlState =
  service :: "string option"
  gpiowatch :: bool
  hVarServer :: VARSERVER_HANDLE
  verbose :: bool
  pFileName :: "string option"
  running :: bool
  GPIOChips :: "GPIOChip list"
  monitoredLines :: "gpiod_line list"

section \<open>The outside world\<close>

text \<open>
  What the external functions answer is not decided by the program.  The record \<open>env\<close>
  holds one answer per call and argument; every call the program makes is appended to a
  trace of \<open>call\<close>s, so that what was asked of the hardware and of the variable
  server, and in which order, can be stated.
\<close>

record env =
  VAR_Get_r :: "VAR_HANDLE \<Rightarrow> int \<times> VarObject"
  VAR_Set_r :: "VAR_HANDLE \<Rightarrow> VarObject \<Rightarrow> int"
  VAR_Notify_r :: "VAR_HANDLE \<Rightarrow> NotificationType \<Rightarrow> int"
  VAR_FindByName_r :: "string \<Rightarrow> VAR_HANDLE"
  gpiod_chip_open_r :: "string \<Rightarrow> gpiod_chip"
  gpiod_chip_get_line_r :: "gpiod_chip \<Rightarrow> nat \<Rightarrow> gpiod_line"
  gpiod_line_request_r :: "gpiod_line \<Rightarrow> gpiod_line_request_config \<Rightarrow> int \<Rightarrow> int"
  gpiod_line_set_value_r :: "gpiod_line \<Rightarrow> int \<Rightarrow> int"
  gpiod_line_get_value_r :: "gpiod_line \<Rightarrow> int"
  gpiod_line_event_read_r :: "gpiod_line \<Rightarrow> int \<times> int"
  gpiod_line_name_r :: "gpiod_line \<Rightarrow> string option"
  strtoul_r :: "string \<Rightarrow> nat"
  calloc_r :: bool
  errno_r :: int

datatype call =
    CALL_VAR_Get VAR_HANDLE
  | CALL_VAR_Set VAR_HANDLE VarObject
  | CALL_VAR_Notify VAR_HANDLE NotificationType
  | CALL_VAR_FindByName string
  | CALL_gpiod_chip_open string
  | CALL_gpiod_chip_close gpiod_chip
  | CALL_gpiod_chip_get_line gpiod_chip nat
  | CALL_gpiod_line_request gpiod_line gpiod_line_request_config int
  | CALL_gpiod_line_release gpiod_line
  | CALL_gpiod_line_set_value gpiod_line int
  | CALL_gpiod_line_get_value gpiod_line
  | CALL_gpiod_line_event_read gpiod_line
  | CALL_usleep int
  | CALL_pthread_create gpiod_line
  | CALL_syslog int
  | CALL_printf string

text \<open>The values written to hardware lines, of a trace.\<close>

fun hw_writes :: "call list \<Rightarrow> (gpiod_line \<times> int) list" where
  "hw_writes [] = []"
| "hw_writes (CALL_gpiod_line_set_value l v # cs) = (l, v) # hw_writes cs"
| "hw_writes (c # cs) = hw_writes cs"

section \<open>Lookup in the registry\<close>

text \<open>
  \<^verbatim>\<open>FindGPIO\<close> walks the chips and, in each, its lines, and stops at the first line
  whose variable handle matches.  The pointer it returns is the position of that line:
  the index of its chip and its index among the chip's lines.
\<close>

fun FindGPIO_lines :: "GPIO list \<Rightarrow> VAR_HANDLE \<Rightarrow> nat option" where
  "FindGPIO_lines [] h = None"
| "FindGPIO_lines (g # gs) h =
     (if hVar g = h then Some 0 else map_option Suc (FindGPIO_lines gs h))"

fun FindGPIO_chips :: "GPIOChip list \<Rightarrow> VAR_HANDLE \<Rightarrow> (nat \<times> nat) option" where
  "FindGPIO_chips [] h = None"
| "FindGPIO_chips (c # cs) h =
     (case FindGPIO_lines (Lines c) h of
        Some j \<Rightarrow> Some (0, j)
      | None \<Rightarrow> map_option (\<lambda>(i, j). (Suc i, j)) (FindGPIO_chips cs h))"

definition FindGPIO :: "GPIOCtrlState \<Rightarrow> VAR_HANDLE \<Rightarrow> (nat \<times> nat) option" where
  "FindGPIO pState h =
     (if h \<noteq> VAR_INVALID then FindGPIO_chips (GPIOChips pState) h else None)"

text \<open>Reading and writing the line a position points to.\<close>

definition deref_GPIO :: "GPIOCtrlState \<Rightarrow> nat \<times> nat \<Rightarrow> GPIO" where
  "deref_GPIO pState p = Lines (GPIOChips pState ! fst p) ! snd p"

definition store_GPIO :: "GPIOCtrlState \<Rightarrow> nat \<times> nat \<Rightarrow> GPIO \<Rightarrow> GPIOCtrlState" where
  "store_GPIO pState p g =
     pState\<lparr>GPIOChips := (GPIOChips pState)[fst p :=
       (GPIOChips pState ! fst p)\<lparr>Lines := (Lines (GPIOChips pState ! fst p))[snd p := g]\<rparr>]\<rparr>"

definition valid_pos :: "GPIOCtrlState \<Rightarrow> nat \<times> nat \<Rightarrow> bool" where
  "valid_pos pState p \<longleftrightarrow>
     fst p < length (GPIOChips pState) \<and> snd p < length (Lines (GPIOChips pState ! fst p))"

text \<open>
  \<^verbatim>\<open>FindVar\<close>: the same walk, comparing the \<^verbatim>\<open>gpiod_line\<close> pointers, returning the
  variable handle of the first match and \<^verbatim>\<open>VAR_INVALID\<close> when there is none.
\<close>

fun FindVar_lines :: "GPIO list \<Rightarrow> gpiod_line \<Rightarrow> VAR_HANDLE option" where
  "FindVar_lines [] l = None"
| "FindVar_lines (g # gs) l = (if pLine g = l then Some (hVar g) else FindVar_lines gs l)"

fun FindVar_chips :: "GPIOChip list \<Rightarrow> gpiod_line \<Rightarrow> VAR_HANDLE option" where
  "FindVar_chips [] l = None"
| "FindVar_chips (c # cs) l =
     (case FindVar_lines (Lines c) l of
        Some h \<Rightarrow> Some h
      | None \<Rightarrow> FindVar_chips cs l)"

definition FindVar :: "GPIOCtrlState \<Rightarrow> gpiod_line \<Rightarrow> VAR_HANDLE" where
  "FindVar pState l =
     (if l \<noteq> NULL then
        (case FindVar_chips (GPIOChips pState) l of Some h \<Rightarrow> h | None \<Rightarrow> VAR_INVALID)
      else VAR_INVALID)"

section \<open>The synchronization engine\<close>

text \<open>
  \<^verbatim>\<open>UpdateOutput\<close>: the handler of a \<^verbatim>\<open>SIG_VAR_MODIFIED\<close> signal.  It returns its
  result code, the state and the trace.  In the PWM branch \<^verbatim>\<open>result\<close> is never
  assigned and keeps its initial \<^verbatim>\<open>EINVAL\<close>.
\<close>

definition UpdateOutput ::
  "env \<Rightarrow> VAR_HANDLE \<Rightarrow> GPIOCtrlState \<Rightarrow> call list \<Rightarrow> int \<times> GPIOCtrlState \<times> call list" where
  "UpdateOutput e h pState tr =
     (if h \<noteq> VAR_INVALID then
        (case FindGPIO pState h of
           Some p \<Rightarrow>
             (let pGPIO = deref_GPIO pState p in
              if direction pGPIO = GPIOD_LINE_DIRECTION_OUTPUT then
                (let (rcv, var) = VAR_Get_r e h;
                     tr1 = tr @ [CALL_VAR_Get h] in
                 if rcv = EOK then
                   if vtype var = VARTYPE_UINT16 then
                     if PWM pGPIO then
                       (EINVAL,
                        store_GPIO pState p
                          (pGPIO\<lparr>gpio_value :=
                             (if val_ui var \<le> 255 then uint (val_ui var) else 255)\<rparr>),
                        tr1)
                     else
                       (let v = (if val_ui var > 0 then 1 else 0);
                            pState1 = store_GPIO pState p (pGPIO\<lparr>gpio_value := v\<rparr>);
                            rc = gpiod_line_set_value_r e (pLine pGPIO) v;
                            tr2 = tr1 @ [CALL_gpiod_line_set_value (pLine pGPIO) v];
                            result = (if rc = EOK then EOK else errno_r e);
                            tr3 = (if result \<noteq> EOK then tr2 @ [CALL_syslog result] else tr2)
                        in (EOK, pState1, tr3))
                   else (ENOTSUP, pState, tr1)
                 else (ENOENT, pState, tr1))
              else (ENOTSUP, pState, tr))
         | None \<Rightarrow> (ENOENT, pState, tr))
      else (EINVAL, pState, tr))"

text \<open>\<^verbatim>\<open>UpdateInput\<close>: the handler of a \<^verbatim>\<open>SIG_VAR_CALC\<close> signal.\<close>

definition UpdateInput ::
  "env \<Rightarrow> VAR_HANDLE \<Rightarrow> GPIOCtrlState \<Rightarrow> call list \<Rightarrow> int \<times> call list" where
  "UpdateInput e h pState tr =
     (if h \<noteq> VAR_INVALID then
        (case FindGPIO pState h of
           Some p \<Rightarrow>
             (let pGPIO = deref_GPIO pState p in
              if direction pGPIO = GPIOD_LINE_DIRECTION_INPUT then
                (let rc = gpiod_line_get_value_r e (pLine pGPIO);
                     tr1 = tr @ [CALL_gpiod_line_get_value (pLine pGPIO)] in
                 if rc \<noteq> - 1 then
                   (let var = \<lparr>vtype = VARTYPE_UINT16, len = 2,
                               val_ui = (if rc > 0 then 1 else 0)\<rparr>
                    in (VAR_Set_r e h var, tr1 @ [CALL_VAR_Set h var]))
                 else (EIO, tr1))
              else (ENOTSUP, tr))
         | None \<Rightarrow> (ENOENT, tr))
      else (EINVAL, tr))"

text \<open>
  \<^verbatim>\<open>HandleGPIOEvent\<close>: one line that fired in watch mode.  The answer of
  \<^verbatim>\<open>gpiod_line_event_read\<close> is its return code and the \<^verbatim>\<open>event_type\<close> it filled in.
\<close>

definition HandleGPIOEvent ::
  "env \<Rightarrow> GPIOCtrlState \<Rightarrow> gpiod_line \<Rightarrow> call list \<Rightarrow> int \<times> call list" where
  "HandleGPIOEvent e pState l tr =
     (if l \<noteq> NULL then
        (let (rc, ev) = gpiod_line_event_read_r e l;
             tr1 = tr @ [CALL_gpiod_line_event_read l] in
         if rc = 0 then
           (let val = (if ev = GPIOD_LINE_EVENT_RISING_EDGE then 1 else 0);
                h = FindVar pState l in
            if h \<noteq> VAR_INVALID then
              (let var = \<lparr>vtype = VARTYPE_UINT16, len = 2, val_ui = val\<rparr>
               in (VAR_Set_r e h var, tr1 @ [CALL_VAR_Set h var]))
            else (ENOENT, tr1))
         else (EIO, tr1))
      else (EINVAL, tr))"

section \<open>The PWM driver\<close>

text \<open>
  The PWM thread of a line and the main thread share the member \<^verbatim>\<open>value\<close> of the
  descriptor: \<^verbatim>\<open>CreatePWM\<close> hands the thread the descriptor itself, and the PWM branch
  of \<^verbatim>\<open>UpdateOutput\<close> stores a new duty cycle in it at any time.  The body of the loop
  of \<^verbatim>\<open>PWMThread\<close> reads the member four times: in the two tests that clamp it, for the
  on-duration and, after the on-phase, again for the off-duration.  What the main
  thread has stored since the read before is given per read by an \<open>interference\<close>:
  \<open>None\<close> when it has stored nothing, the last value stored otherwise.  (A store
  between a clamping test and the assignment that follows it is overwritten by that
  assignment and is the same to the thread as no store.)
\<close>

record interference =
  before_low :: "int option"
  before_high :: "int option"
  before_on :: "int option"
  before_off :: "int option"

definition no_writes :: interference where
  "no_writes = \<lparr>before_low = None, before_high = None, before_on = None, before_off = None\<rparr>"

definition stored :: "int option \<Rightarrow> int \<Rightarrow> int" where
  "stored w v = (case w of None \<Rightarrow> v | Some x \<Rightarrow> x)"

text \<open>
  One pass through the body of the loop, on the line the thread owns: it returns the
  line, with the \<^verbatim>\<open>value\<close> the pass leaves in it, and the trace.
\<close>

definition PWMCycle :: "interference \<Rightarrow> GPIO \<Rightarrow> call list \<Rightarrow> GPIO \<times> call list" where
  "PWMCycle w pGPIO tr =
     (let v1 = stored (before_low w) (gpio_value pGPIO);
          v2 = stored (before_high w) (if v1 < 0 then 0 else v1);
          v3 = stored (before_on w) (if v2 > 255 then 255 else v2);
          t = v3 * 40;
          tr1 = (if t > 0
                 then tr @ [CALL_gpiod_line_set_value (pLine pGPIO) 1, CALL_usleep t]
                 else tr);
          v4 = stored (before_off w) v3;
          t' = (255 - v4) * 40;
          tr2 = (if t' > 0
                 then tr1 @ [CALL_gpiod_line_set_value (pLine pGPIO) 0, CALL_usleep t']
                 else tr1)
      in (pGPIO\<lparr>gpio_value := v4\<rparr>, tr2))"

text \<open>
  \<^verbatim>\<open>PWMThread\<close> never leaves its loop: the first argument gives, for each of the cycles
  looked at, the stores of the main thread during it.  With a \<^verbatim>\<open>NULL\<close> argument the
  loop is not entered.
\<close>

fun PWMThread ::
  "interference list \<Rightarrow> GPIO option \<Rightarrow> call list \<Rightarrow> GPIO option \<times> call list" where
  "PWMThread ws None tr = (None, tr)"
| "PWMThread [] (Some pGPIO) tr = (Some pGPIO, tr)"
| "PWMThread (w # ws) (Some pGPIO) tr =
     (case PWMCycle w pGPIO tr of (g, tr1) \<Rightarrow> PWMThread ws (Some g) tr1)"

text \<open>
  The main thread stores in the \<^verbatim>\<open>value\<close> of a PWM line only what the PWM branch of
  \<^verbatim>\<open>UpdateOutput\<close> computes, the unsigned value of the variable cut off at 255.
\<close>

definition duty_writes :: "interference \<Rightarrow> bool" where
  "duty_writes w \<longleftrightarrow>
     list_all (\<lambda>x. case x of None \<Rightarrow> True | Some v \<Rightarrow> 0 \<le> v \<and> v \<le> 255)
       [before_low w, before_high w, before_on w, before_off w]"

section \<open>The configuration document\<close>

text \<open>
  The nodes tjson hands out: an object with its attributes in document order, an array,
  a string variable, or a variable of another kind.  \<^verbatim>\<open>JSON_Find\<close> looks an attribute
  up by its key, \<^verbatim>\<open>JSON_GetStr\<close> returns the string of a string attribute and \<^verbatim>\<open>NULL\<close>
  (\<open>None\<close>) otherwise.
\<close>

datatype JNode =
    JSON_STR string
  | JSON_OTHER
  | JSON_ARRAY "JNode list"
  | JSON_OBJECT "(string \<times> JNode) list"

fun JSON_Find :: "JNode \<Rightarrow> string \<Rightarrow> JNode option" where
  "JSON_Find (JSON_OBJECT kvs) k = map_of kvs k"
| "JSON_Find n k = None"

definition JSON_GetStr :: "JNode \<Rightarrow> string \<Rightarrow> string option" where
  "JSON_GetStr pNode k =
     (case JSON_Find pNode k of Some (JSON_STR s) \<Rightarrow> Some s | _ \<Rightarrow> None)"

text \<open>
  \<^verbatim>\<open>JSON_Iterate\<close> calls the callback on every element of an array, in order, and
  returns \<^verbatim>\<open>EINVAL\<close> when it is not given an array.  Whether it goes on after a
  callback has failed is the library's business: \<open>stops\<close> says that it stops there.
\<close>

fun JSON_Iterate_nodes ::
  "bool \<Rightarrow> (JNode \<Rightarrow> 's \<Rightarrow> call list \<Rightarrow> int \<times> 's \<times> call list) \<Rightarrow> JNode list \<Rightarrow> int \<Rightarrow>
     's \<Rightarrow> call list \<Rightarrow> int \<times> 's \<times> call list" where
  "JSON_Iterate_nodes stops fn [] result pState tr = (result, pState, tr)"
| "JSON_Iterate_nodes stops fn (n # ns) result pState tr =
     (case fn n pState tr of
        (rc, pState1, tr1) \<Rightarrow>
          if rc \<noteq> EOK then
            (if stops then (rc, pState1, tr1)
             else JSON_Iterate_nodes stops fn ns rc pState1 tr1)
          else JSON_Iterate_nodes stops fn ns result pState1 tr1)"

definition JSON_Iterate ::
  "bool \<Rightarrow> JNode option \<Rightarrow> (JNode \<Rightarrow> 's \<Rightarrow> call list \<Rightarrow> int \<times> 's \<times> call list) \<Rightarrow>
     's \<Rightarrow> call list \<Rightarrow> int \<times> 's \<times> call list" where
  "JSON_Iterate stops pArray fn pState tr =
     (case pArray of
        Some (JSON_ARRAY ns) \<Rightarrow> JSON_Iterate_nodes stops fn ns EOK pState tr
      | _ \<Rightarrow> (EINVAL, pState, tr))"

section \<open>Decimal output\<close>

text \<open>What \<^verbatim>\<open>%d\<close> prints for an \<^verbatim>\<open>int\<close>.\<close>

definition digit_char :: "nat \<Rightarrow> char" where
  "digit_char d = char_of (48 + d)"

fun show_nat :: "nat \<Rightarrow> string" where
  "show_nat n =
     (if n < 10 then [digit_char n] else show_nat (n div 10) @ [digit_char (n mod 10)])"

definition printf_d :: "int \<Rightarrow> string" where
  "printf_d i = (if i < 0 then CHR ''-'' # show_nat (nat (- i)) else show_nat (nat i))"

section \<open>The configuration binder\<close>

text \<open>
  \<^verbatim>\<open>GetVarHandle\<close>: the handle of the variable named by the attribute \<^verbatim>\<open>var\<close>, and
  the name it stored through \<^verbatim>\<open>ppName\<close> (stored only when the variable was found).
\<close>

definition GetVarHandle ::
  "env \<Rightarrow> VARSERVER_HANDLE \<Rightarrow> JNode \<Rightarrow> call list \<Rightarrow> VAR_HANDLE \<times> string option \<times> call list" where
  "GetVarHandle e hVarServer' pNode tr =
     (if hVarServer' \<noteq> NULL then
        (case JSON_GetStr pNode ''var'' of
           Some varname \<Rightarrow>
             (let h = VAR_FindByName_r e varname;
                  tr1 = tr @ [CALL_VAR_FindByName varname] in
              if h \<noteq> VAR_INVALID then (h, Some varname, tr1) else (h, None, tr1))
         | None \<Rightarrow> (VAR_INVALID, None, tr))
      else (VAR_INVALID, None, tr))"

text \<open>Appending a line at the tail of the line list of the last chip.\<close>

definition append_line :: "GPIOCtrlState \<Rightarrow> GPIO \<Rightarrow> GPIOCtrlState" where
  "append_line pState g =
     pState\<lparr>GPIOChips := butlast (GPIOChips pState) @
       [(last (GPIOChips pState))\<lparr>Lines := Lines (last (GPIOChips pState)) @ [g]\<rparr>]\<rparr>"

text \<open>
  \<^verbatim>\<open>CreateLine\<close>: the fresh descriptor (\<^verbatim>\<open>calloc\<close> zeroes it) is appended to the
  chip being parsed, \<^verbatim>\<open>pLastGPIOChip\<close>.  \<^verbatim>\<open>strtoul\<close> yields an \<^verbatim>\<open>unsigned long\<close> that
  is stored in an \<^verbatim>\<open>unsigned int\<close> and then in the \<^verbatim>\<open>int\<close> member \<^verbatim>\<open>line_num\<close>.
\<close>

definition CreateLine ::
  "env \<Rightarrow> JNode \<Rightarrow> GPIOCtrlState \<Rightarrow> call list \<Rightarrow> GPIO option \<times> GPIOCtrlState \<times> call list" where
  "CreateLine e pNode pState tr =
     (if GPIOChips pState \<noteq> [] then
        (let pChip' = pChip (last (GPIOChips pState));
             (h, varname, tr1) = GetVarHandle e (hVarServer pState) pNode tr in
         if h \<noteq> VAR_INVALID then
           (case JSON_GetStr pNode ''line'' of
              Some line_str \<Rightarrow>
                (let line_num' = (word_of_nat (strtoul_r e line_str) :: 32 word);
                     l = gpiod_chip_get_line_r e pChip' (unat line_num');
                     tr2 = tr1 @ [CALL_gpiod_chip_get_line pChip' (unat line_num')] in
                 if l \<noteq> NULL then
                   if calloc_r e then
                     (let g = \<lparr>pLine = l, hVar = h, line_num = sint line_num',
                               name = (case varname of Some s \<Rightarrow> s | None \<Rightarrow> []),
                               gpio_value = 0, direction = 0, PWM = False, event_type = 0,
                               request = \<lparr>consumer = None, request_type = 0, flags = 0\<rparr>\<rparr>
                      in (Some g, append_line pState g, tr2))
                   else (None, pState, tr2 @ [CALL_gpiod_line_release l])
                 else
                   (None, pState,
                    tr2 @ [CALL_printf (''failed to create line '' @ printf_d (sint line_num')
                             @ ''\<newline>'')]))
            | None \<Rightarrow> (None, pState, tr1 @ [CALL_printf ''cannot get line\<newline>'']))
         else (None, pState, tr1 @ [CALL_printf ''Unable to Get var handle\<newline>'']))
      else (None, pState, tr))"

text \<open>
  \<^verbatim>\<open>GetLineOutputValue\<close>: seeds \<^verbatim>\<open>value\<close> of an output line from its variable.
\<close>

definition GetLineOutputValue ::
  "env \<Rightarrow> VARSERVER_HANDLE \<Rightarrow> GPIO \<Rightarrow> call list \<Rightarrow> int \<times> GPIO \<times> call list" where
  "GetLineOutputValue e hVarServer' pGPIO tr =
     (if hVarServer' \<noteq> NULL \<and> hVar pGPIO \<noteq> VAR_INVALID \<and> pLine pGPIO \<noteq> NULL then
        if direction pGPIO = GPIOD_LINE_DIRECTION_OUTPUT then
          (let (rcv, var) = VAR_Get_r e (hVar pGPIO);
               tr1 = tr @ [CALL_VAR_Get (hVar pGPIO)] in
           if rcv = EOK then
             if vtype var = VARTYPE_UINT16
             then (EOK, pGPIO\<lparr>gpio_value := uint (val_ui var)\<rparr>, tr1)
             else (ENOTSUP, pGPIO, tr1)
           else (ENOENT, pGPIO, tr1))
        else (ENOTSUP, pGPIO, tr)
      else (EINVAL, pGPIO, tr))"

definition ParseLineDirection ::
  "env \<Rightarrow> GPIO \<Rightarrow> JNode \<Rightarrow> GPIOCtrlState \<Rightarrow> call list \<Rightarrow> int \<times> GPIO \<times> call list" where
  "ParseLineDirection e pGPIO pNode pState tr =
     (if pLine pGPIO \<noteq> NULL then
        (let direction' = (case JSON_GetStr pNode ''direction'' of
                             None \<Rightarrow> ''input'' | Some d \<Rightarrow> d) in
         if direction' = ''input'' then
           (EOK,
            pGPIO\<lparr>direction := GPIOD_LINE_DIRECTION_INPUT,
                  request := (request pGPIO)
                    \<lparr>request_type := GPIOD_LINE_REQUEST_DIRECTION_INPUT\<rparr>\<rparr>,
            tr)
         else if direction' = ''output'' then
           (case GetLineOutputValue e (hVarServer pState)
                   (pGPIO\<lparr>direction := GPIOD_LINE_DIRECTION_OUTPUT,
                          request := (request pGPIO)
                            \<lparr>request_type := GPIOD_LINE_REQUEST_DIRECTION_OUTPUT\<rparr>\<rparr>) tr of
              (r, g, tr1) \<Rightarrow> (EOK, g, tr1))
         else if direction' = ''pwm'' then
           (case GetLineOutputValue e (hVarServer pState)
                   (pGPIO\<lparr>PWM := True,
                          direction := GPIOD_LINE_DIRECTION_OUTPUT,
                          request := (request pGPIO)
                            \<lparr>request_type := GPIOD_LINE_REQUEST_DIRECTION_OUTPUT\<rparr>\<rparr>) tr of
              (r, g, tr1) \<Rightarrow> (EOK, g, tr1))
         else (ENOTSUP, pGPIO, tr))
      else (EINVAL, pGPIO, tr))"

definition ParseLineActiveState :: "GPIO \<Rightarrow> JNode \<Rightarrow> int \<times> GPIO" where
  "ParseLineActiveState pGPIO pNode =
     (case JSON_GetStr pNode ''active_state'' of
        Some active_state \<Rightarrow>
          if active_state = ''low'' then
            (EOK, pGPIO\<lparr>request := (request pGPIO)
               \<lparr>flags := flags (request pGPIO) OR GPIOD_LINE_REQUEST_FLAG_ACTIVE_LOW\<rparr>\<rparr>)
          else if active_state = ''high'' then
            (EOK, pGPIO\<lparr>request := (request pGPIO)
               \<lparr>flags := flags (request pGPIO) AND NOT GPIOD_LINE_REQUEST_FLAG_ACTIVE_LOW\<rparr>\<rparr>)
          else (ENOTSUP, pGPIO)
      | None \<Rightarrow> (EOK, pGPIO))"

definition ParseLineEvent :: "GPIO \<Rightarrow> JNode \<Rightarrow> int \<times> GPIO" where
  "ParseLineEvent pGPIO pNode =
     (case JSON_GetStr pNode ''event'' of
        Some event_state \<Rightarrow>
          if event_state = ''RISING_EDGE'' then
            (EOK, pGPIO\<lparr>event_type := GPIOD_LINE_REQUEST_EVENT_RISING_EDGE\<rparr>)
          else if event_state = ''FALLING_EDGE'' then
            (EOK, pGPIO\<lparr>event_type := GPIOD_LINE_REQUEST_EVENT_FALLING_EDGE\<rparr>)
          else if event_state = ''BOTH_EDGES'' then
            (EOK, pGPIO\<lparr>event_type := GPIOD_LINE_REQUEST_EVENT_BOTH_EDGES\<rparr>)
          else (ENOTSUP, pGPIO\<lparr>event_type := 0\<rparr>)
      | None \<Rightarrow> (EOK, pGPIO\<lparr>event_type := 0\<rparr>))"

definition ParseLineBias :: "GPIO \<Rightarrow> JNode \<Rightarrow> int \<times> GPIO" where
  "ParseLineBias pGPIO pNode =
     (case JSON_GetStr pNode ''bias'' of
        Some bias \<Rightarrow>
          if bias = ''disabled'' then
            (EOK, pGPIO\<lparr>request := (request pGPIO)
               \<lparr>flags := flags (request pGPIO) OR GPIOD_LINE_REQUEST_FLAG_BIAS_DISABLE\<rparr>\<rparr>)
          else if bias = ''pull-down'' then
            (EOK, pGPIO\<lparr>request := (request pGPIO)
               \<lparr>flags := flags (request pGPIO) OR GPIOD_LINE_REQUEST_FLAG_BIAS_PULL_DOWN\<rparr>\<rparr>)
          else if bias = ''pull-up'' then
            (EOK, pGPIO\<lparr>request := (request pGPIO)
               \<lparr>flags := flags (request pGPIO) OR GPIOD_LINE_REQUEST_FLAG_BIAS_PULL_UP\<rparr>\<rparr>)
          else (ENOTSUP, pGPIO)
      | None \<Rightarrow> (EOK, pGPIO))"

definition ParseLineDrive :: "GPIO \<Rightarrow> JNode \<Rightarrow> int \<times> GPIO" where
  "ParseLineDrive pGPIO pNode =
     (let pushpull = NOT (GPIOD_LINE_REQUEST_FLAG_OPEN_DRAIN OR
                          GPIOD_LINE_REQUEST_FLAG_OPEN_SOURCE) in
      case JSON_GetStr pNode ''drive'' of
        Some drive \<Rightarrow>
          if drive = ''push-pull'' then
            (EOK, pGPIO\<lparr>request := (request pGPIO)
               \<lparr>flags := flags (request pGPIO) AND pushpull\<rparr>\<rparr>)
          else if drive = ''open-source'' then
            (EOK, pGPIO\<lparr>request := (request pGPIO)
               \<lparr>flags := flags (request pGPIO) OR GPIOD_LINE_REQUEST_FLAG_OPEN_SOURCE\<rparr>\<rparr>)
          else if drive = ''open-drain'' then
            (EOK, pGPIO\<lparr>request := (request pGPIO)
               \<lparr>flags := flags (request pGPIO) OR GPIOD_LINE_REQUEST_FLAG_OPEN_DRAIN\<rparr>\<rparr>)
          else (ENOTSUP, pGPIO)
      | None \<Rightarrow> (EOK, pGPIO))"

text \<open>
  \<^verbatim>\<open>RequestLine\<close>: the request is made only when the operating mode and the event
  subscription of the line agree.
\<close>

definition RequestLine ::
  "env \<Rightarrow> GPIO \<Rightarrow> GPIOCtrlState \<Rightarrow> call list \<Rightarrow> int \<times> GPIO \<times> call list" where
  "RequestLine e pGPIO pState tr =
     (if service pState \<noteq> None then
        (let g1 = pGPIO\<lparr>request := (request pGPIO)\<lparr>consumer := service pState, flags := 0\<rparr>\<rparr>;
             g2 = (if event_type g1 \<noteq> 0
                   then g1\<lparr>request := (request g1)\<lparr>request_type := event_type g1\<rparr>\<rparr>
                   else g1);
             request' = ((gpiowatch pState \<and> event_type g2 \<noteq> 0) \<or>
                         (\<not> gpiowatch pState \<and> event_type g2 = 0)) in
         if request' then
           (let v = (if PWM g2 then 0 else gpio_value g2);
                rc = gpiod_line_request_r e (pLine g2) (request g2) v
            in ((if rc = - 1 then errno_r e else EOK), g2,
                tr @ [CALL_gpiod_line_request (pLine g2) (request g2) v]))
         else (EOK, g2, tr))
      else (EINVAL, pGPIO, tr))"

definition SetupNotification ::
  "env \<Rightarrow> GPIO \<Rightarrow> GPIOCtrlState \<Rightarrow> call list \<Rightarrow> int \<times> call list" where
  "SetupNotification e pGPIO pState tr =
     (if \<not> gpiowatch pState then
        if direction pGPIO = GPIOD_LINE_DIRECTION_INPUT \<and> event_type pGPIO = 0 then
          (VAR_Notify_r e (hVar pGPIO) NOTIFY_CALC,
           tr @ [CALL_VAR_Notify (hVar pGPIO) NOTIFY_CALC])
        else if direction pGPIO = GPIOD_LINE_DIRECTION_OUTPUT then
          (VAR_Notify_r e (hVar pGPIO) NOTIFY_MODIFIED,
           tr @ [CALL_VAR_Notify (hVar pGPIO) NOTIFY_MODIFIED])
        else (EINVAL, tr)
      else (EINVAL, tr))"

text \<open>\<^verbatim>\<open>CreatePWM\<close> starts the thread of a line; what the thread does is \<open>PWMThread\<close>.\<close>

definition CreatePWM :: "GPIO \<Rightarrow> call list \<Rightarrow> call list" where
  "CreatePWM pGPIO tr = tr @ [CALL_pthread_create (pLine pGPIO)]"

text \<open>
  The descriptor \<^verbatim>\<open>CreateLine\<close> returns is the last line of the last chip; the steps
  of \<^verbatim>\<open>ParseLine\<close> change it through that pointer.  \<open>store_last\<close> writes the
  descriptor they leave back to that place.
\<close>

definition store_last :: "GPIOCtrlState \<Rightarrow> GPIO \<Rightarrow> GPIOCtrlState" where
  "store_last pState g =
     pState\<lparr>GPIOChips := butlast (GPIOChips pState) @
       [(last (GPIOChips pState))\<lparr>Lines := butlast (Lines (last (GPIOChips pState))) @ [g]\<rparr>]\<rparr>"

text \<open>
  \<^verbatim>\<open>ParseLine\<close>, the callback of the iteration over the lines of a chip.  The results
  of its steps are dropped and it returns \<^verbatim>\<open>EOK\<close> on every path.
\<close>

definition ParseLine ::
  "env \<Rightarrow> JNode \<Rightarrow> GPIOCtrlState \<Rightarrow> call list \<Rightarrow> int \<times> GPIOCtrlState \<times> call list" where
  "ParseLine e pNode pState tr =
     (case CreateLine e pNode pState tr of
        (None, pState1, tr1) \<Rightarrow> (EOK, pState1, tr1)
      | (Some pGPIO, pState1, tr1) \<Rightarrow>
          (let (r1, g1, tr2) = ParseLineDirection e pGPIO pNode pState1 tr1;
               (r2, g2) = ParseLineActiveState g1 pNode;
               (r3, g3) = ParseLineEvent g2 pNode;
               (r4, g4) = ParseLineBias g3 pNode;
               (r5, g5) = ParseLineDrive g4 pNode;
               (r6, g6, tr3) = RequestLine e g5 pState1 tr2;
               pState2 =
                 (if event_type g6 \<noteq> 0 \<and>
                     length (monitoredLines pState1) < GPIOD_LINE_BULK_MAX_LINES
                  then pState1\<lparr>monitoredLines := monitoredLines pState1 @ [pLine g6]\<rparr>
                  else pState1);
               (r7, tr4) = SetupNotification e g6 pState2 tr3;
               tr5 = (if \<not> gpiowatch pState2 \<and> PWM g6 then CreatePWM g6 tr4 else tr4)
           in (EOK, store_last pState2 g6, tr5)))"

definition CreateLines ::
  "env \<Rightarrow> bool \<Rightarrow> JNode \<Rightarrow> GPIOCtrlState \<Rightarrow> call list \<Rightarrow> int \<times> GPIOCtrlState \<times> call list" where
  "CreateLines e stops pNode pState tr =
     (case JSON_Find pNode ''lines'' of
        Some (JSON_ARRAY ns) \<Rightarrow>
          JSON_Iterate stops (Some (JSON_ARRAY ns)) (ParseLine e) pState tr
      | Some n \<Rightarrow> (ENOTSUP, pState, tr)
      | None \<Rightarrow> (EINVAL, pState, tr))"

text \<open>
  \<^verbatim>\<open>CreateChip\<close>: opens \<^verbatim>\<open>/dev/<chip>\<close> and appends the chip at the tail of the chip
  list; it says whether a chip was created.
\<close>

definition CreateChip ::
  "env \<Rightarrow> JNode \<Rightarrow> GPIOCtrlState \<Rightarrow> call list \<Rightarrow> bool \<times> GPIOCtrlState \<times> call list" where
  "CreateChip e pNode pState tr =
     (case JSON_GetStr pNode ''chip'' of
        Some chipName \<Rightarrow>
          (let buf = ''/dev/'' @ chipName;
               c = gpiod_chip_open_r e buf;
               tr1 = tr @ [CALL_gpiod_chip_open buf] in
           if c \<noteq> NULL then
             if calloc_r e then
               (True,
                pState\<lparr>GPIOChips := GPIOChips pState @
                  [\<lparr>chip_name = chipName, pChip = c, Lines = []\<rparr>]\<rparr>,
                tr1)
             else (False, pState, tr1 @ [CALL_gpiod_chip_close c])
           else (False, pState, tr1 @ [CALL_printf (''unable to open chip: '' @ buf
                                          @ ''\<newline>'')]))
      | None \<Rightarrow> (False, pState, tr @ [CALL_printf ''chip name is NULL\<newline>'']))"

definition ParseChip ::
  "env \<Rightarrow> bool \<Rightarrow> JNode \<Rightarrow> GPIOCtrlState \<Rightarrow> call list \<Rightarrow> int \<times> GPIOCtrlState \<times> call list" where
  "ParseChip e stops pNode pState tr =
     (case CreateChip e pNode pState tr of
        (True, pState1, tr1) \<Rightarrow> CreateLines e stops pNode pState1 tr1
      | (False, pState1, tr1) \<Rightarrow> (EINVAL, pState1, tr1))"

text \<open>
  The binding step of \<^verbatim>\<open>main\<close>: the iteration of \<^verbatim>\<open>ParseChip\<close> over the array
  \<^verbatim>\<open>gpiodef\<close> of the configuration, and the state \<^verbatim>\<open>main\<close> starts it from: the state
  is cleared, the service name is \<^verbatim>\<open>argv[0]\<close>, which selects the watch mode when it is
  \<^verbatim>\<open>gpiowatch\<close>, and the variable server has been opened.  The options \<^verbatim>\<open>-v\<close> and
  \<^verbatim>\<open>-f\<close> do not bear on the binding and are left at their cleared values.
\<close>

definition main_state :: "string \<Rightarrow> VARSERVER_HANDLE \<Rightarrow> GPIOCtrlState" where
  "main_state argv0 hVarServer' =
     \<lparr>service = Some argv0, gpiowatch = (argv0 = ''gpiowatch''), hVarServer = hVarServer',
      verbose = False, pFileName = None, running = False, GPIOChips = [],
      monitoredLines = []\<rparr>"

definition main_bind ::
  "env \<Rightarrow> bool \<Rightarrow> JNode \<Rightarrow> GPIOCtrlState \<Rightarrow> call list \<Rightarrow> int \<times> GPIOCtrlState \<times> call list" where
  "main_bind e stops config pState tr =
     JSON_Iterate stops (JSON_Find config ''gpiodef'') (ParseChip e stops) pState tr"

text \<open>The lines requested from the hardware, of a trace.\<close>

fun hw_requests :: "call list \<Rightarrow> gpiod_line list" where
  "hw_requests [] = []"
| "hw_requests (CALL_gpiod_line_request l r v # cs) = l # hw_requests cs"
| "hw_requests (c # cs) = hw_requests cs"

section \<open>The status reporter\<close>

text \<open>
  \<^verbatim>\<open>PrintLineInfo\<close> and \<^verbatim>\<open>PrintStatus\<close> return their result code and the text they
  write to the descriptor \<^verbatim>\<open>fd\<close>.  The flag \<open>first\<close> of the two loops is the source's
  test whether the element at hand is the head of its list.
\<close>

definition PrintLineInfo :: "env \<Rightarrow> GPIO \<Rightarrow> int \<Rightarrow> int \<times> string" where
  "PrintLineInfo e pGPIO fd =
     (if fd \<noteq> - 1 then
        (EOK,
         if pLine pGPIO \<noteq> NULL then
           ''{ \"line\" : '' @ printf_d (line_num pGPIO) @ '', \"name\" : \"'' @
           (case gpiod_line_name_r e (pLine pGPIO) of Some line_name \<Rightarrow> line_name
            | None \<Rightarrow> ''unknown'') @
           ''\", \"var\" : \"'' @ name pGPIO @ ''\"}''
         else [])
      else (EINVAL, []))"

fun PrintStatus_lines :: "env \<Rightarrow> bool \<Rightarrow> GPIO list \<Rightarrow> int \<Rightarrow> string" where
  "PrintStatus_lines e first [] fd = []"
| "PrintStatus_lines e first (g # gs) fd =
     (if first then [] else '','') @ snd (PrintLineInfo e g fd) @
     PrintStatus_lines e False gs fd"

fun PrintStatus_chips :: "env \<Rightarrow> bool \<Rightarrow> GPIOChip list \<Rightarrow> int \<Rightarrow> string" where
  "PrintStatus_chips e first [] fd = []"
| "PrintStatus_chips e first (c # cs) fd =
     (if first then [] else '','') @
     ''{ \"chip\" : \"'' @ chip_name c @ ''\", \"lines\" : ['' @
     PrintStatus_lines e True (Lines c) fd @ '']}'' @
     PrintStatus_chips e False cs fd"

definition PrintStatus :: "env \<Rightarrow> GPIOCtrlState \<Rightarrow> int \<Rightarrow> int \<times> string" where
  "PrintStatus e pState fd =
     (if fd \<noteq> - 1
      then (EOK, ''['' @ PrintStatus_chips e True (GPIOChips pState) fd @ '']'')
      else (EINVAL, []))"

section \<open>Reading the status report back\<close>

text \<open>
  The specification asks that the report, parsed back as JSON, enumerate the chips and
  lines of the registry.  The following JSON values, their reader and the listing
  \<open>status_json\<close> follow the specification, not the source: arrays, objects, strings
  without escapes and integers, with white space between the tokens.  The reader takes
  fuel, one unit per value and element; \<open>json_parse\<close> gives it the length of the text.
\<close>

datatype json = JNum int | JStr string | JArr "json list" | JObj "(string \<times> json) list"

definition is_ws :: "char \<Rightarrow> bool" where
  "is_ws c \<longleftrightarrow> c = CHR '' '' \<or> c = CHR 0x09 \<or> c = CHR 0x0A \<or> c = CHR 0x0D"

definition skip_ws :: "string \<Rightarrow> string" where
  "skip_ws s = dropWhile is_ws s"

definition is_digit :: "char \<Rightarrow> bool" where
  "is_digit c \<longleftrightarrow> 48 \<le> (of_char c :: nat) \<and> (of_char c :: nat) \<le> 57"

definition digit_val :: "char \<Rightarrow> nat" where
  "digit_val c = of_char c - 48"

fun parse_digits :: "nat \<Rightarrow> string \<Rightarrow> nat \<times> string" where
  "parse_digits acc [] = (acc, [])"
| "parse_digits acc (c # cs) =
     (if is_digit c then parse_digits (10 * acc + digit_val c) cs else (acc, c # cs))"

definition parse_num :: "string \<Rightarrow> (int \<times> string) option" where
  "parse_num s =
     (case s of
        [] \<Rightarrow> None
      | c # cs \<Rightarrow>
          if c = CHR ''-'' then
            (case cs of
               [] \<Rightarrow> None
             | d # ds \<Rightarrow>
                 if is_digit d
                 then (case parse_digits 0 cs of (n, r) \<Rightarrow> Some (- int n, r))
                 else None)
          else if is_digit c
          then (case parse_digits 0 s of (n, r) \<Rightarrow> Some (int n, r))
          else None)"

text \<open>A character that may stand unescaped inside a JSON string.\<close>

definition plain_char :: "char \<Rightarrow> bool" where
  "plain_char c \<longleftrightarrow> c \<noteq> CHR 0x22 \<and> c \<noteq> CHR 0x5C \<and> 32 \<le> (of_char c :: nat)"

fun parse_str :: "string \<Rightarrow> (string \<times> string) option" where
  "parse_str [] = None"
| "parse_str (c # cs) =
     (if c = CHR 0x22 then Some ([], cs)
      else if plain_char c then map_option (\<lambda>(x, r). (c # x, r)) (parse_str cs)
      else None)"

fun parse_value :: "nat \<Rightarrow> string \<Rightarrow> (json \<times> string) option"
  and parse_elems :: "nat \<Rightarrow> string \<Rightarrow> (json list \<times> string) option"
  and parse_members :: "nat \<Rightarrow> string \<Rightarrow> ((string \<times> json) list \<times> string) option" where
  "parse_value 0 s = None"
| "parse_value (Suc n) s =
     (case skip_ws s of
        [] \<Rightarrow> None
      | c # r \<Rightarrow>
          if c = CHR 0x22 then map_option (\<lambda>(x, r'). (JStr x, r')) (parse_str r)
          else if c = CHR ''['' then
            (case skip_ws r of
               [] \<Rightarrow> None
             | c' # r' \<Rightarrow>
                 if c' = CHR '']'' then Some (JArr [], r')
                 else map_option (\<lambda>(vs, r''). (JArr vs, r'')) (parse_elems n r))
          else if c = CHR ''{'' then
            (case skip_ws r of
               [] \<Rightarrow> None
             | c' # r' \<Rightarrow>
                 if c' = CHR ''}'' then Some (JObj [], r')
                 else map_option (\<lambda>(ms, r''). (JObj ms, r'')) (parse_members n r))
          else map_option (\<lambda>(i, r'). (JNum i, r')) (parse_num (c # r)))"
| "parse_elems 0 s = None"
| "parse_elems (Suc n) s =
     (case parse_value n s of
        None \<Rightarrow> None
      | Some (v, r) \<Rightarrow>
          (case skip_ws r of
             [] \<Rightarrow> None
           | c # r' \<Rightarrow>
               if c = CHR '','' then map_option (\<lambda>(vs, r''). (v # vs, r'')) (parse_elems n r')
               else if c = CHR '']'' then Some ([v], r')
               else None))"
| "parse_members 0 s = None"
| "parse_members (Suc n) s =
     (case skip_ws s of
        [] \<Rightarrow> None
      | c # r \<Rightarrow>
          if c = CHR 0x22 then
            (case parse_str r of
               None \<Rightarrow> None
             | Some (k, r1) \<Rightarrow>
                 (case skip_ws r1 of
                    [] \<Rightarrow> None
                  | c1 # r2 \<Rightarrow>
                      if c1 = CHR '':'' then
                        (case parse_value n r2 of
                           None \<Rightarrow> None
                         | Some (v, r3) \<Rightarrow>
                             (case skip_ws r3 of
                                [] \<Rightarrow> None
                              | c3 # r4 \<Rightarrow>
                                  if c3 = CHR '','' then
                                    map_option (\<lambda>(ms, r5). ((k, v) # ms, r5))
                                      (parse_members n r4)
                                  else if c3 = CHR ''}'' then Some ([(k, v)], r4)
                                  else None))
                      else None))
          else None)"

definition json_parse :: "string \<Rightarrow> json option" where
  "json_parse s =
     (case parse_value (length s) s of
        Some (v, r) \<Rightarrow> if skip_ws r = [] then Some v else None
      | None \<Rightarrow> None)"

text \<open>
  The listing the report stands for: per chip, in the order of the registry, its name and
  its lines, each with its number, its hardware name (\<^verbatim>\<open>unknown\<close> when the hardware
  gives none) and the name of its variable.
\<close>

definition line_json :: "env \<Rightarrow> GPIO \<Rightarrow> json" where
  "line_json e g =
     JObj [(''line'', JNum (line_num g)),
           (''name'', JStr (case gpiod_line_name_r e (pLine g) of Some n \<Rightarrow> n
                            | None \<Rightarrow> ''unknown'')),
           (''var'', JStr (name g))]"

definition chip_json :: "env \<Rightarrow> GPIOChip \<Rightarrow> json" where
  "chip_json e c =
     JObj [(''chip'', JStr (chip_name c)), (''lines'', JArr (map (line_json e) (Lines c)))]"

definition status_json :: "env \<Rightarrow> GPIOCtrlState \<Rightarrow> json" where
  "status_json e pState = JArr (map (chip_json e) (GPIOChips pState))"

text \<open>The names of a registry that print as JSON strings as they are.\<close>

definition plain_line :: "env \<Rightarrow> GPIO \<Rightarrow> bool" where
  "plain_line e g \<longleftrightarrow>
     pLine g \<noteq> NULL \<and> list_all plain_char (name g) \<and>
     (case gpiod_line_name_r e (pLine g) of Some n \<Rightarrow> list_all plain_char n | None \<Rightarrow> True)"

definition plain_registry :: "env \<Rightarrow> GPIOCtrlState \<Rightarrow> bool" where
  "plain_registry e pState \<longleftrightarrow>
     list_all (\<lambda>c. list_all plain_char (chip_name c) \<and> list_all (plain_line e) (Lines c))
       (GPIOChips pState)"

text \<open>
  JSON text in the layout of the report: the members of an object as \<^verbatim>\<open>"key" : value\<close>
  separated by a comma and a blank, the elements of an array separated by a comma.
\<close>

fun show_sep :: "string \<Rightarrow> string list \<Rightarrow> string" where
  "show_sep sep [] = []"
| "show_sep sep [x] = x"
| "show_sep sep (x # y # ys) = x @ sep @ show_sep sep (y # ys)"

fun json_show :: "json \<Rightarrow> string" where
  "json_show (JNum i) = printf_d i"
| "json_show (JStr x) = CHR 0x22 # x @ [CHR 0x22]"
| "json_show (JArr vs) = ''['' @ show_sep '','' (map json_show vs) @ '']''"
| "json_show (JObj ms) =
     ''{ '' @ show_sep '', '' (map (\<lambda>m. CHR 0x22 # fst m @ ''\" : '' @ json_show (snd m)) ms)
     @ ''}''"

text \<open>The values whose strings and keys need no escape, and the fuel a value takes.\<close>

fun plain_json :: "json \<Rightarrow> bool" where
  "plain_json (JNum i) = True"
| "plain_json (JStr x) = list_all plain_char x"
| "plain_json (JArr vs) = list_all plain_json vs"
| "plain_json (JObj ms) =
     (ms \<noteq> [] \<and> list_all (\<lambda>m. list_all plain_char (fst m) \<and> plain_json (snd m)) ms)"

fun fuel_of :: "json \<Rightarrow> nat" where
  "fuel_of (JNum i) = 1"
| "fuel_of (JStr x) = 1"
| "fuel_of (JArr vs) = Suc (sum_list (map (\<lambda>v. Suc (fuel_of v)) vs))"
| "fuel_of (JObj ms) = Suc (sum_list (map (\<lambda>m. Suc (fuel_of (snd m))) ms))"

text \<open>
  For the proof that the reader undoes \<open>json_show\<close>: the text of a member, a rest of the
  input that cannot continue a number, the characters a value can begin with, and the
  property proved of every value by induction.
\<close>

abbreviation mem_show :: "string \<times> json \<Rightarrow> string" where
  "mem_show m \<equiv> CHR 0x22 # fst m @ ''\" : '' @ json_show (snd m)"

definition no_digit_start :: "string \<Rightarrow> bool" where
  "no_digit_start s = (case s of [] \<Rightarrow> True | c # cs \<Rightarrow> \<not> is_digit c)"

definition value_start :: "char \<Rightarrow> bool" where
  "value_start c \<longleftrightarrow>
     c = CHR 0x22 \<or> c = CHR ''['' \<or> c = CHR ''{'' \<or> c = CHR ''-'' \<or> is_digit c"

definition roundtrips :: "json \<Rightarrow> bool" where
  "roundtrips v \<longleftrightarrow>
     (plain_json v \<longrightarrow>
       (\<forall>n rest. fuel_of v \<le> n \<longrightarrow> no_digit_start rest \<longrightarrow>
          parse_value n (json_show v @ rest) = Some (v, rest)))"

section \<open>What the binder leaves behind\<close>

text \<open>
  A line definition is \<open>resolvable\<close> when \<^verbatim>\<open>CreateLine\<close> can make its descriptor: the
  variable server is open, the attribute \<^verbatim>\<open>var\<close> names a variable that exists, the
  attribute \<^verbatim>\<open>line\<close> gives a line the chip has, and the descriptor can be allocated.
  The direction and the other electrical attributes play no part in it.
\<close>

definition resolvable :: "env \<Rightarrow> VARSERVER_HANDLE \<Rightarrow> gpiod_chip \<Rightarrow> JNode \<Rightarrow> bool" where
  "resolvable e hVarServer' pChip' pNode \<longleftrightarrow>
     hVarServer' \<noteq> NULL \<and>
     (case JSON_GetStr pNode ''var'' of
        None \<Rightarrow> False
      | Some varname \<Rightarrow> VAR_FindByName_r e varname \<noteq> VAR_INVALID) \<and>
     (case JSON_GetStr pNode ''line'' of
        None \<Rightarrow> False
      | Some line_str \<Rightarrow>
          gpiod_chip_get_line_r e pChip'
            (unat (word_of_nat (strtoul_r e line_str) :: 32 word)) \<noteq> NULL) \<and>
     calloc_r e"

text \<open>
  The registry a binding run leaves: every line has a variable handle and a hardware
  handle, and every monitored line is the hardware handle of a line of the registry.
\<close>

definition registry_ok :: "GPIOCtrlState \<Rightarrow> bool" where
  "registry_ok pState \<longleftrightarrow>
     list_all (\<lambda>c. list_all (\<lambda>g. hVar g \<noteq> VAR_INVALID \<and> pLine g \<noteq> NULL) (Lines c))
       (GPIOChips pState) \<and>
     list_all (\<lambda>l. list_ex (\<lambda>c. list_ex (\<lambda>g. pLine g = l) (Lines c)) (GPIOChips pState))
       (monitoredLines pState)"

text \<open>The monitored lines after a line has been parsed.\<close>

definition monitored_after :: "GPIOCtrlState \<Rightarrow> GPIO \<Rightarrow> gpiod_line list" where
  "monitored_after st g =
     (if event_type g \<noteq> 0 \<and> length (monitoredLines st) < GPIOD_LINE_BULK_MAX_LINES
      then monitoredLines st @ [pLine g] else monitoredLines st)"

section \<open>An example registry\<close>

text \<open>
  The registry of one chip with an output line (line 4), a PWM line (line 5) and an
  edge-monitored input line (line 26), and an outside world in which every write to a
  hardware line fails.
\<close>

definition ex_env :: env where
  "ex_env =
     \<lparr>VAR_Get_r = (\<lambda>h. (EOK, \<lparr>vtype = VARTYPE_UINT16, len = 2,
                                val_ui = (if h = 2 then 300 else 7)\<rparr>)),
      VAR_Set_r = (\<lambda>h v. EOK),
      VAR_Notify_r = (\<lambda>h n. EOK),
      VAR_FindByName_r = (\<lambda>s. if s = ''/HW/GPIO/P4'' then 1
                               else if s = ''/HW/GPIO/P5'' then 2
                               else if s = ''/HW/GPIO/P26'' then 3 else 0),
      gpiod_chip_open_r = (\<lambda>s. if s = ''/dev/gpiochip0'' then 100 else 0),
      gpiod_chip_get_line_r = (\<lambda>c n. if c = 100 \<and> n < 32 then 200 + n else 0),
      gpiod_line_request_r = (\<lambda>l r v. 0),
      gpiod_line_set_value_r = (\<lambda>l v. - 1),
      gpiod_line_get_value_r = (\<lambda>l. 1),
      gpiod_line_event_read_r = (\<lambda>l. (0, GPIOD_LINE_EVENT_FALLING_EDGE)),
      gpiod_line_name_r = (\<lambda>l. None),
      strtoul_r = (\<lambda>s. if s = ''4'' then 4 else if s = ''5'' then 5
                        else if s = ''26'' then 26 else 0),
      calloc_r = True,
      errno_r = EIO\<rparr>"

definition ex_line :: "nat \<Rightarrow> VAR_HANDLE \<Rightarrow> string \<Rightarrow> int \<Rightarrow> bool \<Rightarrow> int \<Rightarrow> GPIO" where
  "ex_line n h v d p ev =
     \<lparr>pLine = 200 + n, hVar = h, line_num = int n, name = v, gpio_value = 0, direction = d,
      PWM = p, event_type = ev,
      request = \<lparr>consumer = Some ''gpioctrl'', request_type = 0, flags = 0\<rparr>\<rparr>"

definition ex_state :: GPIOCtrlState where
  "ex_state =
     \<lparr>service = Some ''gpioctrl'', gpiowatch = False, hVarServer = 1, verbose = False,
      pFileName = None, running = True,
      GPIOChips =
        [\<lparr>chip_name = ''gpiochip0'', pChip = 100,
          Lines = [ex_line 4 1 ''/HW/GPIO/P4'' GPIOD_LINE_DIRECTION_OUTPUT False 0,
                   ex_line 5 2 ''/HW/GPIO/P5'' GPIOD_LINE_DIRECTION_OUTPUT True 0,
                   ex_line 26 3 ''/HW/GPIO/P26'' GPIOD_LINE_DIRECTION_INPUT False
                     GPIOD_LINE_REQUEST_EVENT_BOTH_EDGES]\<rparr>],
      monitoredLines = [226]\<rparr>"

text \<open>
  Configuration documents: a chip with an output line and a line of unknown direction,
  and the state in which \<^verbatim>\<open>CreateChip\<close> leaves the controller before the lines of that
  chip are parsed; and a chip with one edge-monitored input, bound in watch mode.
\<close>

definition ex_line_ok :: JNode where
  "ex_line_ok = JSON_OBJECT [(''line'', JSON_STR ''4''), (''var'', JSON_STR ''/HW/GPIO/P4''),
                             (''direction'', JSON_STR ''output'')]"

definition ex_line_bad :: JNode where
  "ex_line_bad = JSON_OBJECT [(''line'', JSON_STR ''5''), (''var'', JSON_STR ''/HW/GPIO/P5''),
                              (''direction'', JSON_STR ''sideways'')]"

definition ex_chip :: JNode where
  "ex_chip = JSON_OBJECT [(''chip'', JSON_STR ''gpiochip0''),
                          (''lines'', JSON_ARRAY [ex_line_ok, ex_line_bad])]"

definition ex_config :: JNode where
  "ex_config = JSON_OBJECT [(''gpiodef'', JSON_ARRAY [ex_chip])]"


definition ex_watch_config :: JNode where
  "ex_watch_config =
     JSON_OBJECT [(''gpiodef'', JSON_ARRAY
       [JSON_OBJECT [(''chip'', JSON_STR ''gpiochip0''),
          (''lines'', JSON_ARRAY
             [JSON_OBJECT [(''line'', JSON_STR ''26''), (''var'', JSON_STR ''/HW/GPIO/P26''),
                           (''direction'', JSON_STR ''input''),
                           (''event'', JSON_STR ''BOTH_EDGES'')]])]])]"

definition ex_watch_state :: GPIOCtrlState where
  "ex_watch_state =
     fst (snd (main_bind ex_env True ex_watch_config (main_state ''gpiowatch'' 1) []))"

text \<open>
  Two registries for the status report: one chip with the lines 1 and 2, bound to the
  variables \<^verbatim>\<open>a\<close> and \<^verbatim>\<open>b\<close>; and one chip with the line 1 alone, bound to a variable
  whose name holds double quotes.
\<close>

definition ex_status_A :: GPIOCtrlState where
  "ex_status_A =
     ex_state\<lparr>GPIOChips :=
       [\<lparr>chip_name = ''c'', pChip = 100,
         Lines = [ex_line 1 1 ''a'' GPIOD_LINE_DIRECTION_INPUT False 0,
                  ex_line 2 2 ''b'' GPIOD_LINE_DIRECTION_INPUT False 0]\<rparr>]\<rparr>"

definition ex_status_B :: GPIOCtrlState where
  "ex_status_B =
     ex_state\<lparr>GPIOChips :=
       [\<lparr>chip_name = ''c'', pChip = 100,
         Lines = [ex_line 1 1 ''a\"},{ \"line\" : 2, \"name\" : \"unknown\", \"var\" : \"b''
                    GPIOD_LINE_DIRECTION_INPUT False 0]\<rparr>]\<rparr>"

text \<open>
  A configuration in which two output lines are bound to one variable, and the registry
  the binder makes of it.
\<close>

definition ex_shared_config :: JNode where
  "ex_shared_config =
     JSON_OBJECT [(''gpiodef'', JSON_ARRAY
       [JSON_OBJECT [(''chip'', JSON_STR ''gpiochip0''),
          (''lines'', JSON_ARRAY
             [JSON_OBJECT [(''line'', JSON_STR ''4''), (''var'', JSON_STR ''/HW/GPIO/P4''),
                           (''direction'', JSON_STR ''output'')],
              JSON_OBJECT [(''line'', JSON_STR ''5''), (''var'', JSON_STR ''/HW/GPIO/P4''),
                           (''direction'', JSON_STR ''output'')]])]])]"

definition ex_shared_state :: GPIOCtrlState where
  "ex_shared_state =
     fst (snd (main_bind ex_env True ex_shared_config (main_state ''gpioctrl'' 1) []))"

section \<open>Verification\<close>

lemmas errno_defs = EOK_def ENOENT_def EIO_def EINVAL_def ENOTSUP_def

lemma hw_writes_append: "hw_writes (xs @ ys) = hw_writes xs @ hw_writes ys"
  by (induction xs rule: hw_writes.induct) simp_all

lemmas gpiod_defs =
  GPIOD_LINE_DIRECTION_INPUT_def GPIOD_LINE_DIRECTION_OUTPUT_def
  GPIOD_LINE_REQUEST_DIRECTION_INPUT_def GPIOD_LINE_REQUEST_DIRECTION_OUTPUT_def
  GPIOD_LINE_REQUEST_EVENT_FALLING_EDGE_def GPIOD_LINE_REQUEST_EVENT_RISING_EDGE_def
  GPIOD_LINE_REQUEST_EVENT_BOTH_EDGES_def GPIOD_LINE_EVENT_RISING_EDGE_def
  GPIOD_LINE_EVENT_FALLING_EDGE_def GPIOD_LINE_BULK_MAX_LINES_def VAR_INVALID_def NULL_def

lemmas ex_defs = ex_env_def ex_state_def ex_line_def

lemma hw_requests_append: "hw_requests (xs @ ys) = hw_requests xs @ hw_requests ys"
  by (induction xs rule: hw_requests.induct) simp_all


subsection \<open>Lookup\<close>

lemma FindGPIO_lines_Some:
  "FindGPIO_lines gs h = Some j \<Longrightarrow> j < length gs \<and> hVar (gs ! j) = h"
  by (induction gs arbitrary: j) (auto split: if_splits)

lemma FindGPIO_chips_Some:
  "FindGPIO_chips cs h = Some (i, j) \<Longrightarrow>
     i < length cs \<and> j < length (Lines (cs ! i)) \<and> hVar (Lines (cs ! i) ! j) = h"
proof (induction cs arbitrary: i j)
  case Nil
  then show ?case by simp
next
  case (Cons c cs)
  show ?case
  proof (cases "FindGPIO_lines (Lines c) h")
    case None
    with Cons.prems obtain i' where i': "FindGPIO_chips cs h = Some (i', j)" "i = Suc i'"
      by auto
    with Cons.IH [OF i'(1)] show ?thesis by simp
  next
    case (Some j')
    with Cons.prems have "i = 0" "j = j'" by simp_all
    with Some FindGPIO_lines_Some [OF Some] show ?thesis by simp
  qed
qed

lemma FindGPIO_Some:
  assumes "FindGPIO pState h = Some p"
  shows "valid_pos pState p" and "hVar (deref_GPIO pState p) = h" and "h \<noteq> VAR_INVALID"
  using assms FindGPIO_chips_Some [of "GPIOChips pState" h "fst p" "snd p"]
  by (auto simp: FindGPIO_def valid_pos_def deref_GPIO_def split: if_splits)

lemma deref_store_same:
  "valid_pos pState p \<Longrightarrow> deref_GPIO (store_GPIO pState p g) p = g"
  by (simp add: valid_pos_def deref_GPIO_def store_GPIO_def)

lemma deref_store_other:
  "q \<noteq> p \<Longrightarrow> deref_GPIO (store_GPIO pState p g) q = deref_GPIO pState q"
  by (cases "fst p < length (GPIOChips pState)"; cases "fst q = fst p")
     (auto simp: deref_GPIO_def store_GPIO_def prod_eq_iff list_update_beyond)

lemma map_update_same: "f y = f (xs ! i) \<Longrightarrow> map f (xs[i := y]) = map f xs"
  by (induction xs arbitrary: i) (auto split: nat.split)

lemma FindGPIO_lines_None: "FindGPIO_lines gs h = None \<longleftrightarrow> h \<notin> hVar ` set gs"
  by (induction gs) auto

lemma FindGPIO_lines_distinct:
  "distinct (map hVar gs) \<Longrightarrow> j < length gs \<Longrightarrow> FindGPIO_lines gs (hVar (gs ! j)) = Some j"
proof (induction gs arbitrary: j)
  case Nil
  then show ?case by simp
next
  case (Cons g gs)
  show ?case
  proof (cases j)
    case 0
    then show ?thesis by simp
  next
    case (Suc k)
    with Cons.prems have k: "k < length gs" by simp
    then have "gs ! k \<in> set gs" by simp
    then have "hVar (gs ! k) \<in> hVar ` set gs" by (rule imageI)
    with Cons.prems(1) have "hVar (gs ! k) \<noteq> hVar g" by auto
    note k this
    with Cons Suc show ?thesis by simp
  qed
qed

lemma FindGPIO_chips_distinct:
  "distinct (map hVar (concat (map Lines cs))) \<Longrightarrow> i < length cs \<Longrightarrow>
     j < length (Lines (cs ! i)) \<Longrightarrow>
     FindGPIO_chips cs (hVar (Lines (cs ! i) ! j)) = Some (i, j)"
proof (induction cs arbitrary: i)
  case Nil
  then show ?case by simp
next
  case (Cons c cs)
  from Cons.prems(1) have d: "distinct (map hVar (Lines c))"
    "distinct (map hVar (concat (map Lines cs)))"
    "hVar ` set (Lines c) \<inter> hVar ` set (concat (map Lines cs)) = {}"
    by (simp_all add: image_Un)
  show ?case
  proof (cases i)
    case 0
    with Cons.prems FindGPIO_lines_distinct [OF d(1), of j] show ?thesis by simp
  next
    case (Suc k)
    with Cons.prems have k: "k < length cs" "j < length (Lines (cs ! k))" by simp_all
    then have "Lines (cs ! k) ! j \<in> set (concat (map Lines cs))"
      by (auto intro!: bexI [of _ "cs ! k"])
    with d(3) have "hVar (Lines (cs ! k) ! j) \<notin> hVar ` set (Lines c)" by blast
    then have "FindGPIO_lines (Lines c) (hVar (Lines (cs ! k) ! j)) = None"
      by (simp add: FindGPIO_lines_None)
    with Cons.IH [OF d(2) k] Suc show ?thesis by simp
  qed
qed

lemma FindGPIO_resolves_bound_line:
  assumes "valid_pos pState p"
    and "hVar (deref_GPIO pState p) \<noteq> VAR_INVALID"
    and "distinct (map hVar (concat (map Lines (GPIOChips pState))))"
  shows "FindGPIO pState (hVar (deref_GPIO pState p)) = Some p"
  using assms FindGPIO_chips_distinct [of "GPIOChips pState" "fst p" "snd p"]
  by (simp add: FindGPIO_def valid_pos_def deref_GPIO_def)

lemma ex_FindGPIO_1: "FindGPIO ex_state 1 = Some (0, 0)"
  by (simp add: FindGPIO_def ex_defs gpiod_defs)

lemma ex_FindGPIO_2: "FindGPIO ex_state 2 = Some (0, 1)"
  by (simp add: FindGPIO_def ex_defs gpiod_defs)

lemma ex_FindGPIO_3: "FindGPIO ex_state 3 = Some (0, 2)"
  by (simp add: FindGPIO_def ex_defs gpiod_defs)

subsection \<open>Write-through of outputs\<close>

text \<open>
  The line the registry resolves the variable of a modified event to, when it is an
  output that is not a PWM line and the variable holds a \<^verbatim>\<open>UINT16\<close>, is written once:
  with 1 when the value is not zero and with 0 when it is.
\<close>

lemma UpdateOutput_resolved_line_written_once:
  assumes "FindGPIO pState h = Some p"
    and "direction (deref_GPIO pState p) = GPIOD_LINE_DIRECTION_OUTPUT"
    and "\<not> PWM (deref_GPIO pState p)"
    and "VAR_Get_r e h = (EOK, var)"
    and "vtype var = VARTYPE_UINT16"
  shows "hw_writes (snd (snd (UpdateOutput e h pState tr))) =
           hw_writes tr @ [(pLine (deref_GPIO pState p), if val_ui var \<noteq> 0 then 1 else 0)]"
  using assms FindGPIO_Some(3) [OF assms(1)]
  by (simp add: UpdateOutput_def Let_def hw_writes_append word_greater_zero_iff)

text \<open>
  Claim C1, as the claim states it, fails where two lines are bound to one variable:
  nothing in \<^verbatim>\<open>CreateLine\<close> keeps a variable to one line, and \<^verbatim>\<open>FindGPIO\<close> stops at the
  first line that carries the variable.  The binder makes of the example configuration
  a registry with the output lines 204 and 205, both bound to the variable 1 and both
  requested from the hardware; the modified event of that variable writes line 204
  only, and line 205 is not written.
\<close>

theorem UpdateOutput_shared_variable_counterexample:
  "map (\<lambda>c. map (\<lambda>g. (pLine g, hVar g, direction g, PWM g)) (Lines c))
     (GPIOChips ex_shared_state) =
     [[(204, 1, GPIOD_LINE_DIRECTION_OUTPUT, False),
       (205, 1, GPIOD_LINE_DIRECTION_OUTPUT, False)]] \<and>
   hw_requests
     (snd (snd (main_bind ex_env True ex_shared_config (main_state ''gpioctrl'' 1) []))) =
     [204, 205] \<and>
   VAR_Get_r ex_env 1 = (EOK, \<lparr>vtype = VARTYPE_UINT16, len = 2, val_ui = 7\<rparr>) \<and>
   hw_writes (snd (snd (UpdateOutput ex_env 1 ex_shared_state []))) = [(204, 1)]"
  by code_simp

text \<open>
  Claim C1, amended.  In a registry in which no two lines are bound to the same
  variable, for every bound line with direction output that is not a PWM line,
  handling the modified event of its variable, whose value is the \<^verbatim>\<open>UINT16\<close>
  \<open>val_ui var\<close>, adds exactly one write to the hardware writes of the trace: to that
  line, of 1 when the value is not zero and of 0 when it is.
\<close>

theorem UpdateOutput_writes_bound_line_once:
  assumes "distinct (map hVar (concat (map Lines (GPIOChips pState))))"
    and "valid_pos pState p"
    and "hVar (deref_GPIO pState p) = h"
    and "h \<noteq> VAR_INVALID"
    and "direction (deref_GPIO pState p) = GPIOD_LINE_DIRECTION_OUTPUT"
    and "\<not> PWM (deref_GPIO pState p)"
    and "VAR_Get_r e h = (EOK, var)"
    and "vtype var = VARTYPE_UINT16"
  shows "hw_writes (snd (snd (UpdateOutput e h pState tr))) =
           hw_writes tr @ [(pLine (deref_GPIO pState p), if val_ui var \<noteq> 0 then 1 else 0)]"
proof -
  from assms(1-4) have "FindGPIO pState h = Some p"
    using FindGPIO_resolves_bound_line [of pState p] by simp
  from UpdateOutput_resolved_line_written_once [OF this assms(5-8)] show ?thesis .
qed

theorem UpdateOutput_writes_bound_line_once_witness:
  "distinct (map hVar (concat (map Lines (GPIOChips ex_state)))) \<and>
   valid_pos ex_state (0, 0) \<and>
   hVar (deref_GPIO ex_state (0, 0)) = 1 \<and>
   (1 :: nat) \<noteq> VAR_INVALID \<and>
   direction (deref_GPIO ex_state (0, 0)) = GPIOD_LINE_DIRECTION_OUTPUT \<and>
   \<not> PWM (deref_GPIO ex_state (0, 0)) \<and>
   VAR_Get_r ex_env 1 = (EOK, \<lparr>vtype = VARTYPE_UINT16, len = 2, val_ui = 7\<rparr>) \<and>
   hw_writes (snd (snd (UpdateOutput ex_env 1 ex_state []))) = [(204, 1)]"
proof -
  have a: "distinct (map hVar (concat (map Lines (GPIOChips ex_state))))" by code_simp
  have b: "valid_pos ex_state (0, 0)" by code_simp
  have c: "hVar (deref_GPIO ex_state (0, 0)) = 1" by code_simp
  have n: "(1 :: nat) \<noteq> VAR_INVALID" by code_simp
  have g: "VAR_Get_r ex_env 1 = (EOK, \<lparr>vtype = VARTYPE_UINT16, len = 2, val_ui = 7\<rparr>)"
    by (simp add: ex_env_def)
  have d: "direction (deref_GPIO ex_state (0, 0)) = GPIOD_LINE_DIRECTION_OUTPUT"
    and p: "\<not> PWM (deref_GPIO ex_state (0, 0))"
    and l: "pLine (deref_GPIO ex_state (0, 0)) = 204"
    by (simp_all add: deref_GPIO_def ex_state_def ex_line_def)
  from UpdateOutput_writes_bound_line_once [OF a b c n d p g, of "[]"]
  have "hw_writes (snd (snd (UpdateOutput ex_env 1 ex_state []))) = [(204, 1)]"
    by (simp add: l)
  with a b c n d p g show ?thesis by simp
qed

text \<open>
  Claim C4.  For a PWM line the handler of the modified event stores the variable's
  \<^verbatim>\<open>UINT16\<close> value, cut off at 255, in the \<^verbatim>\<open>value\<close> of the descriptor.  Every other
  field of that descriptor, every other descriptor, the chips and the rest of the
  state stay as they were, and nothing is written to a hardware line: the one call made
  is the read of the variable.
\<close>

theorem UpdateOutput_PWM_stores_duty:
  assumes "FindGPIO pState h = Some p"
    and "direction (deref_GPIO pState p) = GPIOD_LINE_DIRECTION_OUTPUT"
    and "PWM (deref_GPIO pState p)"
    and "VAR_Get_r e h = (EOK, var)"
    and "vtype var = VARTYPE_UINT16"
    and "UpdateOutput e h pState tr = (result, pState', tr')"
  shows "deref_GPIO pState' p =
           (deref_GPIO pState p)\<lparr>gpio_value := min (uint (val_ui var)) 255\<rparr> \<and>
         (\<forall>q. q \<noteq> p \<longrightarrow> deref_GPIO pState' q = deref_GPIO pState q) \<and>
         map chip_name (GPIOChips pState') = map chip_name (GPIOChips pState) \<and>
         map pChip (GPIOChips pState') = map pChip (GPIOChips pState) \<and>
         map (length \<circ> Lines) (GPIOChips pState') = map (length \<circ> Lines) (GPIOChips pState) \<and>
         pState'\<lparr>GPIOChips := GPIOChips pState\<rparr> = pState \<and>
         hw_writes tr' = hw_writes tr \<and>
         tr' = tr @ [CALL_VAR_Get h]"
proof -
  note v = FindGPIO_Some [OF assms(1)]
  have le: "(val_ui var \<le> 255) = (uint (val_ui var) \<le> 255)"
    by (simp add: word_le_def)
  have st: "pState' = store_GPIO pState p
              ((deref_GPIO pState p)\<lparr>gpio_value := min (uint (val_ui var)) 255\<rparr>)"
    and tr: "tr' = tr @ [CALL_VAR_Get h]"
    using assms v(3) by (auto simp: UpdateOutput_def Let_def le min_def)
  have 1: "deref_GPIO pState' p =
      (deref_GPIO pState p)\<lparr>gpio_value := min (uint (val_ui var)) 255\<rparr>"
    using st v(1) by (simp add: deref_store_same)
  have 2: "\<forall>q. q \<noteq> p \<longrightarrow> deref_GPIO pState' q = deref_GPIO pState q"
    using st by (simp add: deref_store_other)
  have 3: "map chip_name (GPIOChips pState') = map chip_name (GPIOChips pState)"
    using st by (simp add: store_GPIO_def map_update_same)
  have 4: "map pChip (GPIOChips pState') = map pChip (GPIOChips pState)"
    using st by (simp add: store_GPIO_def map_update_same)
  have 5: "map (length \<circ> Lines) (GPIOChips pState') = map (length \<circ> Lines) (GPIOChips pState)"
    using st by (simp add: store_GPIO_def map_update_same)
  have 6: "pState'\<lparr>GPIOChips := GPIOChips pState\<rparr> = pState"
    using st by (simp add: store_GPIO_def)
  have 7: "hw_writes tr' = hw_writes tr"
    using tr by (simp add: hw_writes_append)
  from 1 2 3 4 5 6 7 tr show ?thesis by blast
qed

theorem UpdateOutput_PWM_stores_duty_witness:
  "FindGPIO ex_state 2 = Some (0, 1) \<and>
   PWM (deref_GPIO ex_state (0, 1)) \<and>
   VAR_Get_r ex_env 2 = (EOK, \<lparr>vtype = VARTYPE_UINT16, len = 2, val_ui = 300\<rparr>) \<and>
   gpio_value (deref_GPIO (fst (snd (UpdateOutput ex_env 2 ex_state []))) (0, 1)) = 255 \<and>
   deref_GPIO (fst (snd (UpdateOutput ex_env 2 ex_state []))) (0, 0) =
     deref_GPIO ex_state (0, 0) \<and>
   hw_writes (snd (snd (UpdateOutput ex_env 2 ex_state []))) = []"
proof -
  have g: "VAR_Get_r ex_env 2 = (EOK, \<lparr>vtype = VARTYPE_UINT16, len = 2, val_ui = 300\<rparr>)"
    by (simp add: ex_env_def)
  have d: "direction (deref_GPIO ex_state (0, 1)) = GPIOD_LINE_DIRECTION_OUTPUT"
    and p: "PWM (deref_GPIO ex_state (0, 1))"
    by (simp_all add: deref_GPIO_def ex_state_def ex_line_def)
  have u: "UpdateOutput ex_env 2 ex_state [] =
      (fst (UpdateOutput ex_env 2 ex_state []), fst (snd (UpdateOutput ex_env 2 ex_state [])),
       snd (snd (UpdateOutput ex_env 2 ex_state [])))"
    by simp
  have m: "min (uint (300 :: 16 word)) 255 = 255" by simp
  from UpdateOutput_PWM_stores_duty [OF ex_FindGPIO_2 d p g _ u]
  show ?thesis using ex_FindGPIO_2 p g by (simp add: m)
qed

text \<open>
  Claim C10.  For an output line that is not a PWM line and a \<^verbatim>\<open>UINT16\<close> variable, the
  handler returns \<^verbatim>\<open>EOK\<close> whatever \<^verbatim>\<open>gpiod_line_set_value\<close> answers, and the descriptor
  keeps the new boolean value.  A failed write (with \<^verbatim>\<open>errno\<close> set) shows only as
  one \<^verbatim>\<open>syslog\<close> call at the end of the trace.
\<close>

theorem UpdateOutput_hides_write_failure:
  assumes "FindGPIO pState h = Some p"
    and "direction (deref_GPIO pState p) = GPIOD_LINE_DIRECTION_OUTPUT"
    and "\<not> PWM (deref_GPIO pState p)"
    and "VAR_Get_r e h = (EOK, var)"
    and "vtype var = VARTYPE_UINT16"
    and "UpdateOutput e h pState tr = (result, pState', tr')"
    and "b = (if val_ui var \<noteq> 0 then 1 else 0)"
  shows "result = EOK \<and>
         gpio_value (deref_GPIO pState' p) = b \<and>
         tr' = tr @ [CALL_VAR_Get h, CALL_gpiod_line_set_value (pLine (deref_GPIO pState p)) b] @
           (if gpiod_line_set_value_r e (pLine (deref_GPIO pState p)) b \<noteq> EOK \<and>
               errno_r e \<noteq> EOK
            then [CALL_syslog (errno_r e)] else [])"
proof -
  note v = FindGPIO_Some [OF assms(1)]
  from assms v(3) have "result = EOK"
    and st: "pState' = store_GPIO pState p ((deref_GPIO pState p)\<lparr>gpio_value := b\<rparr>)"
    and "tr' = tr @ [CALL_VAR_Get h, CALL_gpiod_line_set_value (pLine (deref_GPIO pState p)) b] @
           (if gpiod_line_set_value_r e (pLine (deref_GPIO pState p)) b \<noteq> EOK \<and>
               errno_r e \<noteq> EOK
            then [CALL_syslog (errno_r e)] else [])"
    by (auto simp: UpdateOutput_def Let_def word_greater_zero_iff)
  moreover from st v(1) have "gpio_value (deref_GPIO pState' p) = b"
    by (simp add: deref_store_same)
  ultimately show ?thesis by blast
qed

theorem UpdateOutput_hides_write_failure_witness:
  "FindGPIO ex_state 1 = Some (0, 0) \<and>
   \<not> PWM (deref_GPIO ex_state (0, 0)) \<and>
   gpiod_line_set_value_r ex_env 204 1 = - 1 \<and>
   fst (UpdateOutput ex_env 1 ex_state []) = EOK \<and>
   gpio_value (deref_GPIO (fst (snd (UpdateOutput ex_env 1 ex_state []))) (0, 0)) = 1 \<and>
   snd (snd (UpdateOutput ex_env 1 ex_state [])) =
     [CALL_VAR_Get 1, CALL_gpiod_line_set_value 204 1, CALL_syslog EIO]"
proof -
  have g: "VAR_Get_r ex_env 1 = (EOK, \<lparr>vtype = VARTYPE_UINT16, len = 2, val_ui = 7\<rparr>)"
    by (simp add: ex_env_def)
  have d: "direction (deref_GPIO ex_state (0, 0)) = GPIOD_LINE_DIRECTION_OUTPUT"
    and p: "\<not> PWM (deref_GPIO ex_state (0, 0))"
    by (simp_all add: deref_GPIO_def ex_state_def ex_line_def)
  have u: "UpdateOutput ex_env 1 ex_state [] =
      (fst (UpdateOutput ex_env 1 ex_state []), fst (snd (UpdateOutput ex_env 1 ex_state [])),
       snd (snd (UpdateOutput ex_env 1 ex_state [])))"
    by simp
  have f: "gpiod_line_set_value_r ex_env 204 1 = - 1" "errno_r ex_env = EIO"
    by (simp_all add: ex_env_def)
  from UpdateOutput_hides_write_failure [OF ex_FindGPIO_1 d p g _ u refl]
  show ?thesis using ex_FindGPIO_1 p f by (simp add: deref_GPIO_def ex_state_def ex_line_def errno_defs)
qed

subsection \<open>Queries of inputs\<close>

text \<open>
  Claim C3, as the claim states it, fails where the hardware read fails: the line at
  hand is an input, the variable is queried, \<^verbatim>\<open>gpiod_line_get_value\<close> answers -1, and
  the handler writes nothing to the variable and returns \<^verbatim>\<open>EIO\<close>.
\<close>

theorem UpdateInput_read_failure_counterexample:
  "FindGPIO ex_state 3 = Some (0, 2) \<and>
   direction (deref_GPIO ex_state (0, 2)) = GPIOD_LINE_DIRECTION_INPUT \<and>
   UpdateInput (ex_env\<lparr>gpiod_line_get_value_r := (\<lambda>l. - 1)\<rparr>) 3 ex_state [] =
     (EIO, [CALL_gpiod_line_get_value 226])"
  by (simp add: UpdateInput_def FindGPIO_def deref_GPIO_def ex_defs gpiod_defs)

text \<open>
  Claim C3, amended.  For a query event whose variable the registry resolves to a line:
  when the line is an input and the read of the hardware line does not fail (its answer
  is not -1), the handler reads the line once and writes 1 for a positive level and 0
  otherwise into the variable as a \<^verbatim>\<open>UINT16\<close>, returning what \<^verbatim>\<open>VAR_Set\<close> returns; when
  the read fails, the variable is not written and \<^verbatim>\<open>EIO\<close> is returned; when the line is
  not an input, nothing is read or written and \<^verbatim>\<open>ENOTSUP\<close> is returned.
\<close>

theorem UpdateInput_reads_and_writes_back:
  assumes "FindGPIO pState h = Some p"
    and "l = pLine (deref_GPIO pState p)"
    and "rc = gpiod_line_get_value_r e l"
    and "var = \<lparr>vtype = VARTYPE_UINT16, len = 2, val_ui = (if rc > 0 then 1 else 0)\<rparr>"
  shows "(direction (deref_GPIO pState p) = GPIOD_LINE_DIRECTION_INPUT \<and> rc \<noteq> - 1 \<longrightarrow>
            UpdateInput e h pState tr =
              (VAR_Set_r e h var, tr @ [CALL_gpiod_line_get_value l, CALL_VAR_Set h var])) \<and>
         (direction (deref_GPIO pState p) = GPIOD_LINE_DIRECTION_INPUT \<and> rc = - 1 \<longrightarrow>
            UpdateInput e h pState tr = (EIO, tr @ [CALL_gpiod_line_get_value l])) \<and>
         (direction (deref_GPIO pState p) \<noteq> GPIOD_LINE_DIRECTION_INPUT \<longrightarrow>
            UpdateInput e h pState tr = (ENOTSUP, tr))"
  using assms FindGPIO_Some(3) [OF assms(1)]
  by (simp add: UpdateInput_def Let_def)

theorem UpdateInput_reads_and_writes_back_witness:
  "FindGPIO ex_state 3 = Some (0, 2) \<and>
   direction (deref_GPIO ex_state (0, 2)) = GPIOD_LINE_DIRECTION_INPUT \<and>
   gpiod_line_get_value_r ex_env 226 = 1 \<and>
   UpdateInput ex_env 3 ex_state [] =
     (EOK, [CALL_gpiod_line_get_value 226,
            CALL_VAR_Set 3 \<lparr>vtype = VARTYPE_UINT16, len = 2, val_ui = 1\<rparr>]) \<and>
   FindGPIO ex_state 1 = Some (0, 0) \<and>
   direction (deref_GPIO ex_state (0, 0)) \<noteq> GPIOD_LINE_DIRECTION_INPUT \<and>
   UpdateInput ex_env 1 ex_state [] = (ENOTSUP, [])"
proof -
  have l3: "pLine (deref_GPIO ex_state (0, 2)) = 226"
    and d3: "direction (deref_GPIO ex_state (0, 2)) = GPIOD_LINE_DIRECTION_INPUT"
    and d1: "direction (deref_GPIO ex_state (0, 0)) \<noteq> GPIOD_LINE_DIRECTION_INPUT"
    by (simp_all add: deref_GPIO_def ex_state_def ex_line_def gpiod_defs)
  have r: "gpiod_line_get_value_r ex_env 226 = 1" "VAR_Set_r ex_env = (\<lambda>h v. EOK)"
    by (simp_all add: ex_env_def)
  from UpdateInput_reads_and_writes_back [OF ex_FindGPIO_3 l3 [symmetric] refl refl, of ex_env "[]"]
    UpdateInput_reads_and_writes_back [OF ex_FindGPIO_1 refl refl refl, of ex_env "[]"]
  show ?thesis using ex_FindGPIO_3 ex_FindGPIO_1 d3 d1 r by simp
qed

subsection \<open>The PWM cycle\<close>

text \<open>
  Claim C5, as the claim states it, fails in a cycle during which the duty cycle is
  changed: the cycle starts with the value 255, the main thread stores 0 during the
  on-phase, and the off-duration, taken from the value read again, is 10200
  microseconds, not \<open>(255 - 255) * 40\<close>; the low phase is not left out.
\<close>

theorem PWMCycle_reread_counterexample:
  "PWMCycle (no_writes\<lparr>before_off := Some 0\<rparr>)
     (ex_line 5 2 ''/HW/GPIO/P5'' GPIOD_LINE_DIRECTION_OUTPUT True 0\<lparr>gpio_value := 255\<rparr>) [] =
     (ex_line 5 2 ''/HW/GPIO/P5'' GPIOD_LINE_DIRECTION_OUTPUT True 0\<lparr>gpio_value := 0\<rparr>,
      [CALL_gpiod_line_set_value 205 1, CALL_usleep 10200,
       CALL_gpiod_line_set_value 205 0, CALL_usleep 10200])"
  by code_simp

lemma stored_range:
  "(case w of None \<Rightarrow> True | Some x \<Rightarrow> 0 \<le> x \<and> x \<le> 255) \<Longrightarrow> 0 \<le> v \<Longrightarrow> v \<le> 255 \<Longrightarrow>
     0 \<le> stored w v \<and> stored w v \<le> 255"
  by (cases w) (simp_all add: stored_def)

text \<open>
  Claim C5, amended.  Each cycle of the PWM thread clamps the stored value to [0,255];
  the duty cycles the main thread stores meanwhile lie in [0,255] (\<open>duty_writes\<close>).
  With \<open>D\<close> the value stored when the on-duration is taken (the clamped value, or the
  duty cycle the main thread has stored since) it drives the line high and sleeps
  \<open>D * 40\<close> microseconds only when that time is not zero.  With \<open>D'\<close> the value stored
  when the off-duration is taken, after the on-phase (\<open>D\<close> itself, or the duty cycle the
  main thread has stored during the on-phase), it then drives the line low and sleeps
  \<open>(255 - D') * 40\<close> microseconds only when that time is not zero.  So in a cycle with no
  store during the on-phase \<open>D = 0\<close> leaves out the high phase and \<open>D = 255\<close> the low
  phase.
\<close>

theorem PWMCycle_duty:
  assumes "duty_writes w"
    and "D = stored (before_on w) (stored (before_high w)
               (max 0 (min 255 (stored (before_low w) (gpio_value pGPIO)))))"
    and "D' = stored (before_off w) D"
    and "l = pLine pGPIO"
  shows "PWMCycle w pGPIO tr =
           (pGPIO\<lparr>gpio_value := D'\<rparr>,
            tr @ (if D * 40 \<noteq> 0 then [CALL_gpiod_line_set_value l 1, CALL_usleep (D * 40)] else [])
               @ (if (255 - D') * 40 \<noteq> 0
                  then [CALL_gpiod_line_set_value l 0, CALL_usleep ((255 - D') * 40)] else [])) \<and>
         0 \<le> D \<and> D \<le> 255 \<and> 0 \<le> D' \<and> D' \<le> 255 \<and>
         (w = no_writes \<longrightarrow> D = max 0 (min 255 (gpio_value pGPIO))) \<and>
         (before_off w = None \<longrightarrow> D' = D) \<and>
         (before_off w = None \<and> D = 0 \<longrightarrow>
            snd (PWMCycle w pGPIO tr) = tr @ [CALL_gpiod_line_set_value l 0, CALL_usleep 10200]) \<and>
         (before_off w = None \<and> D = 255 \<longrightarrow>
            snd (PWMCycle w pGPIO tr) = tr @ [CALL_gpiod_line_set_value l 1, CALL_usleep 10200])"
proof -
  define v1 where "v1 = stored (before_low w) (gpio_value pGPIO)"
  define c where "c = max 0 (min 255 v1)"
  define v2 where "v2 = stored (before_high w) (if v1 < 0 then 0 else v1)"
  define v3 where "v3 = stored (before_on w) (if v2 > 255 then 255 else v2)"
  from assms(1) have r: "case before_high w of None \<Rightarrow> True | Some x \<Rightarrow> 0 \<le> x \<and> x \<le> 255"
    "case before_on w of None \<Rightarrow> True | Some x \<Rightarrow> 0 \<le> x \<and> x \<le> 255"
    "case before_off w of None \<Rightarrow> True | Some x \<Rightarrow> 0 \<le> x \<and> x \<le> 255"
    by (simp_all add: duty_writes_def)
  have c: "0 \<le> c" "c \<le> 255" by (simp_all add: c_def)
  have v2: "(if v2 > 255 then 255 else v2) = stored (before_high w) c"
    using r(1) by (cases "before_high w") (auto simp: v2_def c_def stored_def)
  have D: "D = v3" using assms(2) by (simp add: v3_def v2 c_def v1_def)
  note hr = stored_range [OF r(1) c]
  have Dr: "0 \<le> D" "D \<le> 255"
    using stored_range [OF r(2) hr [THEN conjunct1] hr [THEN conjunct2]] assms(2)
    by (simp_all add: c_def v1_def)
  have D'r: "0 \<le> D'" "D' \<le> 255"
    using stored_range [OF r(3) Dr] assms(3) by simp_all
  have cyc: "PWMCycle w pGPIO tr =
           (pGPIO\<lparr>gpio_value := D'\<rparr>,
            tr @ (if D * 40 \<noteq> 0 then [CALL_gpiod_line_set_value l 1, CALL_usleep (D * 40)] else [])
               @ (if (255 - D') * 40 \<noteq> 0
                  then [CALL_gpiod_line_set_value l 0, CALL_usleep ((255 - D') * 40)] else []))"
  proof -
    have e1: "stored (before_low w) (gpio_value pGPIO) = v1" by (simp add: v1_def)
    have e2: "stored (before_high w) (if v1 < 0 then 0 else v1) = v2" by (simp add: v2_def)
    have e3: "stored (before_on w) (if v2 > 255 then 255 else v2) = D" by (simp add: D v3_def)
    have e4: "stored (before_off w) D = D'" by (simp add: assms(3))
    show ?thesis
      unfolding PWMCycle_def Let_def e1 e2 e3 e4 using Dr D'r assms(4) by simp
  qed
  have nw: "w = no_writes \<longrightarrow> D = max 0 (min 255 (gpio_value pGPIO))"
    using assms(2) by (simp add: no_writes_def stored_def)
  have same: "before_off w = None \<longrightarrow> D' = D"
    using assms(3) by (simp add: stored_def)
  have z: "before_off w = None \<and> D = 0 \<longrightarrow>
      snd (PWMCycle w pGPIO tr) = tr @ [CALL_gpiod_line_set_value l 0, CALL_usleep 10200]"
    using cyc same by simp
  have f: "before_off w = None \<and> D = 255 \<longrightarrow>
      snd (PWMCycle w pGPIO tr) = tr @ [CALL_gpiod_line_set_value l 1, CALL_usleep 10200]"
    using cyc same by simp
  from cyc Dr D'r nw same z f show ?thesis by (intro conjI)
qed

theorem PWMCycle_duty_witness:
  "duty_writes no_writes \<and> duty_writes (no_writes\<lparr>before_off := Some 128\<rparr>) \<and>
   PWMCycle no_writes
     (ex_line 5 2 ''/HW/GPIO/P5'' GPIOD_LINE_DIRECTION_OUTPUT True 0\<lparr>gpio_value := 64\<rparr>) [] =
     (ex_line 5 2 ''/HW/GPIO/P5'' GPIOD_LINE_DIRECTION_OUTPUT True 0\<lparr>gpio_value := 64\<rparr>,
      [CALL_gpiod_line_set_value 205 1, CALL_usleep 2560,
       CALL_gpiod_line_set_value 205 0, CALL_usleep 7640]) \<and>
   PWMCycle (no_writes\<lparr>before_off := Some 128\<rparr>)
     (ex_line 5 2 ''/HW/GPIO/P5'' GPIOD_LINE_DIRECTION_OUTPUT True 0\<lparr>gpio_value := 64\<rparr>) [] =
     (ex_line 5 2 ''/HW/GPIO/P5'' GPIOD_LINE_DIRECTION_OUTPUT True 0\<lparr>gpio_value := 128\<rparr>,
      [CALL_gpiod_line_set_value 205 1, CALL_usleep 2560,
       CALL_gpiod_line_set_value 205 0, CALL_usleep 5080]) \<and>
   snd (PWMCycle no_writes
     (ex_line 5 2 ''/HW/GPIO/P5'' GPIOD_LINE_DIRECTION_OUTPUT True 0\<lparr>gpio_value := - 3\<rparr>) []) =
     [CALL_gpiod_line_set_value 205 0, CALL_usleep 10200] \<and>
   snd (PWMCycle no_writes
     (ex_line 5 2 ''/HW/GPIO/P5'' GPIOD_LINE_DIRECTION_OUTPUT True 0\<lparr>gpio_value := 300\<rparr>) []) =
     [CALL_gpiod_line_set_value 205 1, CALL_usleep 10200]"
proof -
  define g where "g = ex_line 5 2 ''/HW/GPIO/P5'' GPIOD_LINE_DIRECTION_OUTPUT True 0"
  define w where "w = no_writes\<lparr>before_off := Some 128\<rparr>"
  have n: "duty_writes no_writes" and n': "duty_writes w"
    by (simp_all add: w_def duty_writes_def no_writes_def)
  have a: "64 = stored (before_on no_writes) (stored (before_high no_writes)
      (max 0 (min 255 (stored (before_low no_writes) (gpio_value (g\<lparr>gpio_value := 64\<rparr>))))))"
    and a': "64 = stored (before_on w) (stored (before_high w)
      (max 0 (min 255 (stored (before_low w) (gpio_value (g\<lparr>gpio_value := 64\<rparr>))))))"
    and b: "0 = stored (before_on no_writes) (stored (before_high no_writes)
      (max 0 (min 255 (stored (before_low no_writes) (gpio_value (g\<lparr>gpio_value := - 3\<rparr>))))))"
    and c: "255 = stored (before_on no_writes) (stored (before_high no_writes)
      (max 0 (min 255 (stored (before_low no_writes) (gpio_value (g\<lparr>gpio_value := 300\<rparr>))))))"
    and o: "x = stored (before_off no_writes) x" and o': "128 = stored (before_off w) 64"
    and l: "205 = pLine (g\<lparr>gpio_value := v\<rparr>)" for v x
    by (simp_all add: g_def w_def ex_line_def no_writes_def stored_def)
  have bn: "before_off no_writes = None" by (simp add: no_writes_def)
  have "PWMCycle no_writes (g\<lparr>gpio_value := 64\<rparr>) [] =
     (g\<lparr>gpio_value := 64\<rparr>,
      [CALL_gpiod_line_set_value 205 1, CALL_usleep 2560,
       CALL_gpiod_line_set_value 205 0, CALL_usleep 7640])"
    using PWMCycle_duty [OF n a o l, of "[]"] by simp
  moreover have "PWMCycle w (g\<lparr>gpio_value := 64\<rparr>) [] =
     (g\<lparr>gpio_value := 128\<rparr>,
      [CALL_gpiod_line_set_value 205 1, CALL_usleep 2560,
       CALL_gpiod_line_set_value 205 0, CALL_usleep 5080])"
    using PWMCycle_duty [OF n' a' o' l, of "[]"] by simp
  moreover have "snd (PWMCycle no_writes (g\<lparr>gpio_value := - 3\<rparr>) []) =
     [CALL_gpiod_line_set_value 205 0, CALL_usleep 10200]"
    using PWMCycle_duty [OF n b o l, of "[]"] bn by simp
  moreover have "snd (PWMCycle no_writes (g\<lparr>gpio_value := 300\<rparr>) []) =
     [CALL_gpiod_line_set_value 205 1, CALL_usleep 10200]"
    using PWMCycle_duty [OF n c o l, of "[]"] bn by simp
  ultimately show ?thesis using n n' unfolding g_def w_def by blast
qed

text \<open>
  As long as the main thread stores nothing, the thread repeats one and the same cycle.
\<close>

lemma PWMThread_cycles:
  assumes "0 \<le> gpio_value pGPIO" and "gpio_value pGPIO \<le> 255"
  shows "PWMThread (replicate n no_writes) (Some pGPIO) tr =
           (Some pGPIO, tr @ concat (replicate n (snd (PWMCycle no_writes pGPIO []))))"
proof -
  define cyc where "cyc = snd (PWMCycle no_writes pGPIO [])"
  have c: "PWMCycle no_writes pGPIO tr = (pGPIO, tr @ cyc)" for tr
    using assms by (simp add: cyc_def PWMCycle_def Let_def no_writes_def stored_def)
  have "PWMThread (replicate n no_writes) (Some pGPIO) tr =
      (Some pGPIO, tr @ concat (replicate n cyc))"
    by (induction n arbitrary: tr) (simp_all add: c)
  then show ?thesis by (simp add: cyc_def)
qed

subsection \<open>The request of a line\<close>

text \<open>
  Claim C6.  In a process that has its service name (\<^verbatim>\<open>main\<close> sets it and the binder
  keeps it, \<open>main_bind_service\<close>), \<^verbatim>\<open>RequestLine\<close> asks the hardware
  for the line exactly when the operating mode and the event subscription agree: watch
  mode for a line with a subscription, signal mode for a line without.  When they
  disagree it makes no call and returns \<^verbatim>\<open>EOK\<close>.
\<close>

theorem RequestLine_mode_gate:
  assumes "service pState \<noteq> None"
    and "RequestLine e pGPIO pState tr = (result, g, tr')"
  shows "hw_requests tr' =
           hw_requests tr @
             (if gpiowatch pState = (event_type pGPIO \<noteq> 0) then [pLine pGPIO] else []) \<and>
         (gpiowatch pState \<noteq> (event_type pGPIO \<noteq> 0) \<longrightarrow> tr' = tr \<and> result = EOK)"
  using assms by (auto simp: RequestLine_def Let_def hw_requests_append split: if_splits)

theorem RequestLine_mode_gate_witness:
  "service ex_state \<noteq> None \<and>
   hw_requests (snd (snd (RequestLine ex_env
      (ex_line 4 1 ''/HW/GPIO/P4'' GPIOD_LINE_DIRECTION_OUTPUT False 0) ex_state []))) = [204] \<and>
   fst (RequestLine ex_env
      (ex_line 26 3 ''/HW/GPIO/P26'' GPIOD_LINE_DIRECTION_INPUT False
         GPIOD_LINE_REQUEST_EVENT_BOTH_EDGES) ex_state []) = EOK \<and>
   snd (snd (RequestLine ex_env
      (ex_line 26 3 ''/HW/GPIO/P26'' GPIOD_LINE_DIRECTION_INPUT False
         GPIOD_LINE_REQUEST_EVENT_BOTH_EDGES) ex_state [])) = [] \<and>
   hw_requests (snd (snd (RequestLine ex_env
      (ex_line 26 3 ''/HW/GPIO/P26'' GPIOD_LINE_DIRECTION_INPUT False
         GPIOD_LINE_REQUEST_EVENT_BOTH_EDGES) (ex_state\<lparr>gpiowatch := True\<rparr>) []))) = [226]"
proof -
  have s: "service ex_state \<noteq> None" "service (ex_state\<lparr>gpiowatch := True\<rparr>) \<noteq> None"
    "\<not> gpiowatch ex_state"
    by (simp_all add: ex_state_def)
  have u: "RequestLine e g st [] =
      (fst (RequestLine e g st []), fst (snd (RequestLine e g st [])),
       snd (snd (RequestLine e g st [])))" for e g st
    by simp
  from RequestLine_mode_gate [OF s(1) u, of ex_env "ex_line 4 1 ''/HW/GPIO/P4'' GPIOD_LINE_DIRECTION_OUTPUT False 0"]
    RequestLine_mode_gate [OF s(1) u, of ex_env "ex_line 26 3 ''/HW/GPIO/P26'' GPIOD_LINE_DIRECTION_INPUT False
         GPIOD_LINE_REQUEST_EVENT_BOTH_EDGES"]
    RequestLine_mode_gate [OF s(2) u, of ex_env "ex_line 26 3 ''/HW/GPIO/P26'' GPIOD_LINE_DIRECTION_INPUT False
         GPIOD_LINE_REQUEST_EVENT_BOTH_EDGES"]
  show ?thesis using s by (simp add: ex_line_def gpiod_defs)
qed

subsection \<open>The steps of ParseLine\<close>

lemma GetLineOutputValue_keeps:
  "GetLineOutputValue e hvs g tr = (r, g', tr') \<Longrightarrow>
     pLine g' = pLine g \<and> hVar g' = hVar g \<and> event_type g' = event_type g \<and>
     PWM g' = PWM g \<and> direction g' = direction g \<and> hw_requests tr' = hw_requests tr"
  by (auto simp: GetLineOutputValue_def Let_def hw_requests_append split: if_splits prod.splits)

lemma ParseLineDirection_keeps:
  "ParseLineDirection e g n st tr = (r, g', tr') \<Longrightarrow>
     pLine g' = pLine g \<and> hVar g' = hVar g \<and> event_type g' = event_type g \<and>
     hw_requests tr' = hw_requests tr"
  by (auto simp: ParseLineDirection_def Let_def split: if_splits prod.splits
      dest!: GetLineOutputValue_keeps)

lemma ParseLineActiveState_keeps:
  "ParseLineActiveState g n = (r, g') \<Longrightarrow>
     pLine g' = pLine g \<and> hVar g' = hVar g \<and> event_type g' = event_type g"
  by (auto simp: ParseLineActiveState_def split: if_splits option.splits)

lemma ParseLineEvent_keeps:
  "ParseLineEvent g n = (r, g') \<Longrightarrow> pLine g' = pLine g \<and> hVar g' = hVar g"
  by (auto simp: ParseLineEvent_def split: if_splits option.splits)

lemma ParseLineEvent_event:
  "event_type (snd (ParseLineEvent g n)) = event_type (snd (ParseLineEvent g0 n))"
  by (auto simp: ParseLineEvent_def split: if_splits option.splits)

lemma ParseLineBias_keeps:
  "ParseLineBias g n = (r, g') \<Longrightarrow>
     pLine g' = pLine g \<and> hVar g' = hVar g \<and> event_type g' = event_type g"
  by (auto simp: ParseLineBias_def split: if_splits option.splits)

lemma ParseLineDrive_keeps:
  "ParseLineDrive g n = (r, g') \<Longrightarrow>
     pLine g' = pLine g \<and> hVar g' = hVar g \<and> event_type g' = event_type g"
  by (auto simp: ParseLineDrive_def Let_def split: if_splits option.splits)

lemma RequestLine_keeps:
  "RequestLine e g st tr = (r, g', tr') \<Longrightarrow>
     pLine g' = pLine g \<and> hVar g' = hVar g \<and> event_type g' = event_type g"
  by (auto simp: RequestLine_def Let_def split: if_splits)

lemma SetupNotification_requests:
  "hw_requests (snd (SetupNotification e g st tr)) = hw_requests tr"
  by (simp add: SetupNotification_def hw_requests_append)

lemma SetupNotification_requests':
  "SetupNotification e g st tr = (r, tr') \<Longrightarrow> hw_requests tr' = hw_requests tr"
  using SetupNotification_requests [of e g st tr] by simp

lemma CreatePWM_requests: "hw_requests (CreatePWM g tr) = hw_requests tr"
  by (simp add: CreatePWM_def hw_requests_append)

lemma GetVarHandle_requests:
  "GetVarHandle e hvs n tr = (h, v, tr') \<Longrightarrow> hw_requests tr' = hw_requests tr"
  by (auto simp: GetVarHandle_def Let_def hw_requests_append split: if_splits option.splits)

lemma GetVarHandle_valid:
  "fst (GetVarHandle e hvs n tr) \<noteq> VAR_INVALID \<longleftrightarrow>
     hvs \<noteq> NULL \<and> (case JSON_GetStr n ''var'' of None \<Rightarrow> False
                   | Some varname \<Rightarrow> VAR_FindByName_r e varname \<noteq> VAR_INVALID)"
  by (auto simp: GetVarHandle_def Let_def split: if_splits option.splits)

lemma CreateLine_Some:
  assumes "CreateLine e n st tr = (Some g, st', tr')"
  shows "GPIOChips st \<noteq> []" and "st' = append_line st g" and "hVar g \<noteq> VAR_INVALID"
    and "pLine g \<noteq> NULL" and "hw_requests tr' = hw_requests tr"
    and "resolvable e (hVarServer st) (pChip (last (GPIOChips st))) n"
  using assms GetVarHandle_valid [of e "hVarServer st" n tr]
  by (auto simp: CreateLine_def Let_def resolvable_def hw_requests_append
      split: if_splits option.splits prod.splits dest: GetVarHandle_requests)

lemma CreateLine_None:
  assumes "CreateLine e n st tr = (None, st', tr')"
  shows "st' = st" and "hw_requests tr' = hw_requests tr"
    and "GPIOChips st = [] \<or> \<not> resolvable e (hVarServer st) (pChip (last (GPIOChips st))) n"
  using assms GetVarHandle_valid [of e "hVarServer st" n tr]
  by (auto simp: CreateLine_def Let_def resolvable_def hw_requests_append
      split: if_splits option.splits prod.splits dest: GetVarHandle_requests)


lemma append_line_fields [simp]:
  "service (append_line st g) = service st"
  "gpiowatch (append_line st g) = gpiowatch st"
  "hVarServer (append_line st g) = hVarServer st"
  "monitoredLines (append_line st g) = monitoredLines st"
  by (simp_all add: append_line_def)

lemma store_last_append_line:
  "GPIOChips st \<noteq> [] \<Longrightarrow>
     store_last ((append_line st g)\<lparr>monitoredLines := m\<rparr>) g' =
       (append_line st g')\<lparr>monitoredLines := m\<rparr>"
  by (simp add: store_last_def append_line_def)

lemma RequestLine_requests:
  "RequestLine e g st tr = (r, g', tr') \<Longrightarrow>
     hw_requests tr' = hw_requests tr @
       (if service st \<noteq> None \<and> gpiowatch st = (event_type g \<noteq> 0) then [pLine g] else [])"
  by (auto simp: RequestLine_def Let_def hw_requests_append split: if_splits)

lemma ParseLine_Some:
  assumes c: "CreateLine e n st tr = (Some g0, st1, tr1)"
    and p: "ParseLine e n st tr = (r, st', tr')"
  shows "r = EOK \<and> (\<exists>g. pLine g = pLine g0 \<and> hVar g = hVar g0 \<and>
           event_type g = event_type (snd (ParseLineEvent g0 n)) \<and>
           st' = (append_line st g)\<lparr>monitoredLines := monitored_after st g\<rparr> \<and>
           hw_requests tr' = hw_requests tr @
             (if service st \<noteq> None \<and> gpiowatch st = (event_type g \<noteq> 0)
              then [pLine g] else []))"
proof -
  note cl = CreateLine_Some [OF c]
  obtain r1 g1 tr2 where s1: "ParseLineDirection e g0 n st1 tr1 = (r1, g1, tr2)"
    by (metis prod_cases3)
  obtain r2 g2 where s2: "ParseLineActiveState g1 n = (r2, g2)" by fastforce
  obtain r3 g3 where s3: "ParseLineEvent g2 n = (r3, g3)" by fastforce
  obtain r4 g4 where s4: "ParseLineBias g3 n = (r4, g4)" by fastforce
  obtain r5 g5 where s5: "ParseLineDrive g4 n = (r5, g5)" by fastforce
  obtain r6 g6 tr3 where s6: "RequestLine e g5 st1 tr2 = (r6, g6, tr3)"
    by (metis prod_cases3)
  note k1 = ParseLineDirection_keeps [OF s1]
    and k2 = ParseLineActiveState_keeps [OF s2]
    and k3 = ParseLineEvent_keeps [OF s3]
    and k4 = ParseLineBias_keeps [OF s4]
    and k5 = ParseLineDrive_keeps [OF s5]
    and k6 = RequestLine_keeps [OF s6]
  have ev3: "event_type g3 = event_type (snd (ParseLineEvent g0 n))"
    using s3 ParseLineEvent_event [of g2 n g0] by simp
  have pl: "pLine g6 = pLine g0" and hv: "hVar g6 = hVar g0"
    using k1 k2 k3 k4 k5 k6 by simp_all
  have ev: "event_type g6 = event_type (snd (ParseLineEvent g0 n))"
    using k4 k5 k6 ev3 by simp
  have ev5: "event_type g5 = event_type g6" and pl5: "pLine g5 = pLine g6"
    using k6 by simp_all
  have rq: "hw_requests tr3 = hw_requests tr @
      (if service st \<noteq> None \<and> gpiowatch st = (event_type g6 \<noteq> 0) then [pLine g6] else [])"
    using RequestLine_requests [OF s6] k1 cl(2,5) ev5 pl5 by simp
  define st2 where "st2 =
      (if event_type g6 \<noteq> 0 \<and> length (monitoredLines st1) < GPIOD_LINE_BULK_MAX_LINES
       then st1\<lparr>monitoredLines := monitoredLines st1 @ [pLine g6]\<rparr> else st1)"
  obtain r7 tr4 where s7: "SetupNotification e g6 st2 tr3 = (r7, tr4)" by fastforce
  have "ParseLine e n st tr =
      (EOK, store_last st2 g6, if \<not> gpiowatch st2 \<and> PWM g6 then CreatePWM g6 tr4 else tr4)"
    unfolding ParseLine_def st2_def [symmetric]
    by (simp add: c s1 s2 s3 s4 s5 s6 s7 Let_def st2_def [symmetric])
  with p have r: "r = EOK" and st'0: "st' = store_last st2 g6"
    and tr'0: "tr' = (if \<not> gpiowatch st2 \<and> PWM g6 then CreatePWM g6 tr4 else tr4)"
    by simp_all
  have st2: "st2 = (append_line st g0)\<lparr>monitoredLines := monitored_after st g6\<rparr>"
    by (simp add: st2_def cl(2) monitored_after_def append_line_def)
  have st': "st' = (append_line st g6)\<lparr>monitoredLines := monitored_after st g6\<rparr>"
    unfolding st'0 st2 by (rule store_last_append_line [OF cl(1)])
  have tr': "hw_requests tr' = hw_requests tr3"
    using tr'0 SetupNotification_requests' [OF s7] by (simp add: CreatePWM_requests)
  have "pLine g6 = pLine g0 \<and> hVar g6 = hVar g0 \<and>
           event_type g6 = event_type (snd (ParseLineEvent g0 n)) \<and>
           st' = (append_line st g6)\<lparr>monitoredLines := monitored_after st g6\<rparr> \<and>
           hw_requests tr' = hw_requests tr @
             (if service st \<noteq> None \<and> gpiowatch st = (event_type g6 \<noteq> 0)
              then [pLine g6] else [])"
    using pl hv ev st' trans [OF tr' rq] by (intro conjI)
  then show ?thesis using r by blast
qed

lemma ParseLine_None:
  assumes c: "CreateLine e n st tr = (None, st1, tr1)"
    and p: "ParseLine e n st tr = (r, st', tr')"
  shows "r = EOK" and "st' = st" and "hw_requests tr' = hw_requests tr"
proof -
  from p c have "r = EOK" "st' = st1" "tr' = tr1" by (simp_all add: ParseLine_def)
  with CreateLine_None [OF c] show "r = EOK" and "st' = st"
    and "hw_requests tr' = hw_requests tr"
    by simp_all
qed

lemma ParseLine_EOK: "fst (ParseLine e n st tr) = EOK"
proof -
  obtain c st1 tr1 where c: "CreateLine e n st tr = (c, st1, tr1)" by (metis prod_cases3)
  obtain r st' tr' where p: "ParseLine e n st tr = (r, st', tr')" by (metis prod_cases3)
  show ?thesis
  proof (cases c)
    case None
    with c p ParseLine_None(1) show ?thesis by fastforce
  next
    case (Some g0)
    with c p ParseLine_Some [of e n st tr g0 st1 tr1 r st' tr'] show ?thesis by simp
  qed
qed


lemma ParseLine_step:
  assumes ne: "GPIOChips st \<noteq> []"
    and p: "ParseLine e n st tr = (r, st', tr')"
  shows "r = EOK \<and>
         (if resolvable e (hVarServer st) (pChip (last (GPIOChips st))) n
          then \<exists>g. hVar g \<noteq> VAR_INVALID \<and> pLine g \<noteq> NULL \<and>
                 st' = (append_line st g)\<lparr>monitoredLines := monitored_after st g\<rparr>
          else st' = st)"
proof -
  obtain c st1 tr1 where c: "CreateLine e n st tr = (c, st1, tr1)" by (metis prod_cases3)
  show ?thesis
  proof (cases c)
    case None
    with c have c': "CreateLine e n st tr = (None, st1, tr1)" by simp
    from CreateLine_None(3) [OF c'] ne ParseLine_None(1,2) [OF c' p] show ?thesis by simp
  next
    case (Some g0)
    with c have c': "CreateLine e n st tr = (Some g0, st1, tr1)" by simp
    from ParseLine_Some [OF c' p] obtain g where g: "r = EOK" "pLine g = pLine g0"
      "hVar g = hVar g0" "st' = (append_line st g)\<lparr>monitoredLines := monitored_after st g\<rparr>"
      by blast
    with CreateLine_Some(3,4,6) [OF c'] show ?thesis by (auto intro!: exI [of _ g])
  qed
qed

lemma JSON_Iterate_nodes_invariant:
  assumes "P st"
    and "\<And>n st tr. P st \<Longrightarrow> P (fst (snd (fn n st tr)))"
  shows "P (fst (snd (JSON_Iterate_nodes stops fn ns res st tr)))"
  using assms(1)
proof (induction ns arbitrary: res st tr)
  case Nil
  then show ?case by simp
next
  case (Cons n ns)
  obtain rc st1 tr1 where f: "fn n st tr = (rc, st1, tr1)" by (metis prod_cases3)
  with assms(2) [OF Cons.prems, of n tr] have "P st1" by simp
  then have "P (fst (snd (JSON_Iterate_nodes stops fn ns res' st1 tr1)))" for res'
    by (rule Cons.IH)
  with f \<open>P st1\<close> show ?case by (cases stops) auto
qed

lemma append_line_last:
  "GPIOChips st \<noteq> [] \<Longrightarrow>
     GPIOChips (append_line st g) \<noteq> [] \<and>
     butlast (GPIOChips (append_line st g)) = butlast (GPIOChips st) \<and>
     Lines (last (GPIOChips (append_line st g))) = Lines (last (GPIOChips st)) @ [g] \<and>
     pChip (last (GPIOChips (append_line st g))) = pChip (last (GPIOChips st)) \<and>
     chip_name (last (GPIOChips (append_line st g))) = chip_name (last (GPIOChips st))"
  by (simp add: append_line_def)

lemma iterate_ParseLine_count:
  assumes "GPIOChips st \<noteq> []"
    and "JSON_Iterate_nodes stops (ParseLine e) ns res st tr = (r, st', tr')"
  shows "r = res \<and> GPIOChips st' \<noteq> [] \<and>
         butlast (GPIOChips st') = butlast (GPIOChips st) \<and>
         length (Lines (last (GPIOChips st'))) =
           length (Lines (last (GPIOChips st))) +
           length (filter (resolvable e (hVarServer st) (pChip (last (GPIOChips st)))) ns)"
  using assms
proof (induction ns arbitrary: st tr)
  case Nil
  then show ?case by simp
next
  case (Cons n ns)
  obtain rc st1 tr1 where f: "ParseLine e n st tr = (rc, st1, tr1)" by (metis prod_cases3)
  note step = ParseLine_step [OF Cons.prems(1) f]
  then have rc: "rc = EOK" by simp
  with Cons.prems(2) f
  have it: "JSON_Iterate_nodes stops (ParseLine e) ns res st1 tr1 = (r, st', tr')" by simp
  show ?case
  proof (cases "resolvable e (hVarServer st) (pChip (last (GPIOChips st))) n")
    case True
    with step obtain g where
      st1: "st1 = (append_line st g)\<lparr>monitoredLines := monitored_after st g\<rparr>" by auto
    note al = append_line_last [OF Cons.prems(1), of g]
    have ne1: "GPIOChips st1 \<noteq> []" using al st1 by simp
    have same: "hVarServer st1 = hVarServer st"
      "pChip (last (GPIOChips st1)) = pChip (last (GPIOChips st))"
      "butlast (GPIOChips st1) = butlast (GPIOChips st)"
      "length (Lines (last (GPIOChips st1))) = Suc (length (Lines (last (GPIOChips st))))"
      using al st1 by simp_all
    from Cons.IH [OF ne1 it] same True show ?thesis by simp
  next
    case False
    with step have "st1 = st" by simp
    with Cons.IH [OF Cons.prems(1), of tr1] it False show ?thesis by simp
  qed
qed


lemma iterate_ParseLine_chip:
  assumes "GPIOChips st \<noteq> []"
    and "JSON_Iterate_nodes stops (ParseLine e) ns res st tr = (r, st', tr')"
  shows "chip_name (last (GPIOChips st')) = chip_name (last (GPIOChips st)) \<and>
         pChip (last (GPIOChips st')) = pChip (last (GPIOChips st)) \<and>
         service st' = service st \<and> gpiowatch st' = gpiowatch st"
  using assms
proof (induction ns arbitrary: st tr)
  case Nil
  then show ?case by simp
next
  case (Cons n ns)
  obtain rc st1 tr1 where f: "ParseLine e n st tr = (rc, st1, tr1)" by (metis prod_cases3)
  note step = ParseLine_step [OF Cons.prems(1) f]
  then have rc: "rc = EOK" by simp
  with Cons.prems(2) f
  have it: "JSON_Iterate_nodes stops (ParseLine e) ns res st1 tr1 = (r, st', tr')" by simp
  show ?case
  proof (cases "resolvable e (hVarServer st) (pChip (last (GPIOChips st))) n")
    case True
    with step obtain g where
      st1: "st1 = (append_line st g)\<lparr>monitoredLines := monitored_after st g\<rparr>" by auto
    note al = append_line_last [OF Cons.prems(1), of g]
    have ne1: "GPIOChips st1 \<noteq> []" using al st1 by simp
    have same: "chip_name (last (GPIOChips st1)) = chip_name (last (GPIOChips st))"
      "pChip (last (GPIOChips st1)) = pChip (last (GPIOChips st))"
      "service st1 = service st" "gpiowatch st1 = gpiowatch st"
      using al st1 by simp_all
    from Cons.IH [OF ne1 it] same show ?thesis by simp
  next
    case False
    with step have "st1 = st" by simp
    with Cons.IH [OF Cons.prems(1), of tr1] it show ?thesis by simp
  qed
qed

text \<open>Every state the binder reaches from the initial state of \<^verbatim>\<open>main\<close> has the service name.\<close>

lemma ParseLine_service:
  "service (fst (snd (ParseLine e n st tr))) = service st"
proof (cases "GPIOChips st = []")
  case True
  then have "CreateLine e n st tr = (None, st, tr)" by (simp add: CreateLine_def)
  then show ?thesis by (simp add: ParseLine_def)
next
  case False
  obtain r st' tr' where p: "ParseLine e n st tr = (r, st', tr')" by (metis prod_cases3)
  from ParseLine_step [OF False p] have "service st' = service st"
    by (auto split: if_splits)
  with p show ?thesis by simp
qed

lemma ParseChip_service:
  "service (fst (snd (ParseChip e stops n st tr))) = service st"
proof -
  obtain b st1 tr1 where c: "CreateChip e n st tr = (b, st1, tr1)" by (metis prod_cases3)
  then have s1: "service st1 = service st"
    by (auto simp: CreateChip_def Let_def split: option.splits if_splits)
  have "service (fst (snd (CreateLines e stops n st1 tr1))) = service st1"
  proof (cases "JSON_Find n ''lines''")
    case None
    then show ?thesis by (simp add: CreateLines_def)
  next
    case (Some a)
    show ?thesis
    proof (cases a)
      case (JSON_ARRAY ns)
      with Some have "CreateLines e stops n st1 tr1 =
          JSON_Iterate_nodes stops (ParseLine e) ns EOK st1 tr1"
        by (simp add: CreateLines_def JSON_Iterate_def)
      with JSON_Iterate_nodes_invariant [of "\<lambda>s. service s = service st1" st1 "ParseLine e"
          stops ns EOK tr1] ParseLine_service
      show ?thesis by simp
    qed (use Some in \<open>simp_all add: CreateLines_def\<close>)
  qed
  with c s1 show ?thesis by (cases b) (simp_all add: ParseChip_def)
qed

lemma main_bind_service:
  "service (fst (snd (main_bind e stops config (main_state argv0 hvs) tr))) = Some argv0"
proof -
  have s0: "service (main_state argv0 hvs) = Some argv0" by (simp add: main_state_def)
  show ?thesis
  proof (cases "JSON_Find config ''gpiodef''")
    case None
    with s0 show ?thesis by (simp add: main_bind_def JSON_Iterate_def)
  next
    case (Some a)
    show ?thesis
    proof (cases a)
      case (JSON_ARRAY ns)
      with Some have "main_bind e stops config (main_state argv0 hvs) tr =
          JSON_Iterate_nodes stops (ParseChip e stops) ns EOK (main_state argv0 hvs) tr"
        by (simp add: main_bind_def JSON_Iterate_def)
      with JSON_Iterate_nodes_invariant [of "\<lambda>s. service s = Some argv0"
          "main_state argv0 hvs" "ParseChip e stops" stops ns EOK tr] s0 ParseChip_service
      show ?thesis by simp
    qed (use Some s0 in \<open>simp_all add: main_bind_def JSON_Iterate_def\<close>)
  qed
qed





text \<open>
  Claim C8, as the claim states it, fails: binding the example configuration, one
  well-formed line and one line of unknown direction, leaves two lines in the registry,
  both requested from the hardware.
\<close>

theorem main_bind_counts_malformed_counterexample:
  "map (\<lambda>c. map line_num (Lines c))
     (GPIOChips (fst (snd (main_bind ex_env True ex_config (main_state ''gpioctrl'' 1) [])))) =
     [[4, 5]] \<and>
   hw_requests (snd (snd (main_bind ex_env True ex_config (main_state ''gpioctrl'' 1) []))) =
     [204, 205]"
  by code_simp

text \<open>
  Claim C8, amended.  The lines of a chip that end up bound are exactly the resolvable
  ones, whatever their direction and whatever the later steps return: for a chip that
  opens, \<^verbatim>\<open>ParseChip\<close> appends the chip with one descriptor per resolvable line
  definition and leaves the chips before it alone.  \<^verbatim>\<open>ParseLine\<close> returns \<^verbatim>\<open>EOK\<close> on
  every input, so the iteration goes through all the definitions and \<^verbatim>\<open>ParseChip\<close>
  returns \<^verbatim>\<open>EOK\<close> to the iteration over the chips, also under an iterator that would
  stop at the first failure.
\<close>

theorem ParseChip_binds_every_resolvable_line:
  assumes "JSON_GetStr pNode ''chip'' = Some chipName"
    and "gpiod_chip_open_r e (''/dev/'' @ chipName) = c"
    and "c \<noteq> NULL" and "calloc_r e"
    and "JSON_Find pNode ''lines'' = Some (JSON_ARRAY ns)"
    and "ParseChip e stops pNode pState tr = (result, pState', tr')"
  shows "result = EOK \<and>
         butlast (GPIOChips pState') = GPIOChips pState \<and>
         chip_name (last (GPIOChips pState')) = chipName \<and>
         length (Lines (last (GPIOChips pState'))) =
           length (filter (resolvable e (hVarServer pState) c) ns) \<and>
         (\<forall>n st t. fst (ParseLine e n st t) = EOK)"
proof -
  define st1 where "st1 = pState\<lparr>GPIOChips := GPIOChips pState @
      [\<lparr>chip_name = chipName, pChip = c, Lines = []\<rparr>]\<rparr>"
  have cc: "CreateChip e pNode pState tr =
      (True, st1, tr @ [CALL_gpiod_chip_open (''/dev/'' @ chipName)])"
    using assms(1-4) by (simp add: CreateChip_def Let_def st1_def)
  with assms(5,6)
  have it: "JSON_Iterate_nodes stops (ParseLine e) ns EOK st1
      (tr @ [CALL_gpiod_chip_open (''/dev/'' @ chipName)]) = (result, pState', tr')"
    by (simp add: ParseChip_def CreateLines_def JSON_Iterate_def)
  have ne: "GPIOChips st1 \<noteq> []" by (simp add: st1_def)
  from iterate_ParseLine_count [OF ne it] iterate_ParseLine_chip [OF ne it]
  show ?thesis by (simp add: st1_def ParseLine_EOK)
qed

theorem ParseChip_binds_every_resolvable_line_witness:
  "JSON_GetStr ex_chip ''chip'' = Some ''gpiochip0'' \<and>
   gpiod_chip_open_r ex_env ''/dev/gpiochip0'' = 100 \<and>
   JSON_Find ex_chip ''lines'' = Some (JSON_ARRAY [ex_line_ok, ex_line_bad]) \<and>
   JSON_GetStr ex_line_bad ''direction'' = Some ''sideways'' \<and>
   fst (ParseChip ex_env True ex_chip (main_state ''gpioctrl'' 1) []) = EOK \<and>
   length (Lines (last (GPIOChips
     (fst (snd (ParseChip ex_env True ex_chip (main_state ''gpioctrl'' 1) [])))))) = 2"
proof -
  have a: "JSON_GetStr ex_chip ''chip'' = Some ''gpiochip0''" by code_simp
  have b: "gpiod_chip_open_r ex_env (''/dev/'' @ ''gpiochip0'') = 100" by code_simp
  have b': "gpiod_chip_open_r ex_env ''/dev/gpiochip0'' = 100" by code_simp
  have c: "(100 :: nat) \<noteq> NULL" "calloc_r ex_env" by code_simp+
  have l: "JSON_Find ex_chip ''lines'' = Some (JSON_ARRAY [ex_line_ok, ex_line_bad])"
    by code_simp
  have d: "JSON_GetStr ex_line_bad ''direction'' = Some ''sideways''" by code_simp
  have p: "ParseChip ex_env True ex_chip (main_state ''gpioctrl'' 1) [] =
      (fst (ParseChip ex_env True ex_chip (main_state ''gpioctrl'' 1) []),
       fst (snd (ParseChip ex_env True ex_chip (main_state ''gpioctrl'' 1) [])),
       snd (snd (ParseChip ex_env True ex_chip (main_state ''gpioctrl'' 1) [])))"
    by simp
  have f: "length (filter (resolvable ex_env (hVarServer (main_state ''gpioctrl'' 1)) 100)
      [ex_line_ok, ex_line_bad]) = 2"
    by code_simp
  from ParseChip_binds_every_resolvable_line [OF a b c l p] f
  show ?thesis using a b' l d by simp
qed

subsection \<open>Edge events in watch mode\<close>

lemma FindVar_lines_None:
  "FindVar_lines gs l = None \<longleftrightarrow> \<not> list_ex (\<lambda>g. pLine g = l) gs"
  by (induction gs) auto

lemma FindVar_lines_Some:
  "FindVar_lines gs l = Some h \<Longrightarrow> \<exists>j<length gs. pLine (gs ! j) = l \<and> hVar (gs ! j) = h"
proof (induction gs)
  case Nil
  then show ?case by simp
next
  case (Cons g gs)
  show ?case
  proof (cases "pLine g = l")
    case True
    with Cons.prems have "hVar g = h" by simp
    with True show ?thesis by (intro exI [of _ 0]) simp
  next
    case False
    with Cons obtain j where "j < length gs" "pLine (gs ! j) = l" "hVar (gs ! j) = h"
      by auto
    then show ?thesis by (intro exI [of _ "Suc j"]) simp
  qed
qed

lemma FindVar_chips_None:
  "FindVar_chips cs l = None \<longleftrightarrow>
     \<not> list_ex (\<lambda>c. list_ex (\<lambda>g. pLine g = l) (Lines c)) cs"
  by (induction cs) (auto simp: FindVar_lines_None [symmetric] split: option.splits)

lemma FindVar_chips_Some:
  "FindVar_chips cs l = Some h \<Longrightarrow>
     \<exists>i j. i < length cs \<and> j < length (Lines (cs ! i)) \<and>
           pLine (Lines (cs ! i) ! j) = l \<and> hVar (Lines (cs ! i) ! j) = h"
proof (induction cs)
  case Nil
  then show ?case by simp
next
  case (Cons c cs)
  show ?case
  proof (cases "FindVar_lines (Lines c) l")
    case None
    with Cons obtain i j where "i < length cs" "j < length (Lines (cs ! i))"
      "pLine (Lines (cs ! i) ! j) = l" "hVar (Lines (cs ! i) ! j) = h"
      by auto
    then show ?thesis by (intro exI [of _ "Suc i"] exI [of _ j]) simp
  next
    case (Some h')
    with Cons.prems have "h' = h" by simp
    with FindVar_lines_Some [OF Some] obtain j where "j < length (Lines c)"
      "pLine (Lines c ! j) = l" "hVar (Lines c ! j) = h"
      by auto
    then show ?thesis by (intro exI [of _ 0] exI [of _ j]) simp
  qed
qed

lemma registry_ok_monitored:
  assumes ok: "registry_ok pState" and m: "l \<in> set (monitoredLines pState)"
  shows "l \<noteq> NULL" and "FindVar pState l \<noteq> VAR_INVALID"
    and "\<exists>p. valid_pos pState p \<and> pLine (deref_GPIO pState p) = l \<and>
             hVar (deref_GPIO pState p) = FindVar pState l"
proof -
  from ok m have ex: "list_ex (\<lambda>c. list_ex (\<lambda>g. pLine g = l) (Lines c)) (GPIOChips pState)"
    by (simp add: registry_ok_def list_all_iff)
  from ok have all: "\<And>c g. c \<in> set (GPIOChips pState) \<Longrightarrow> g \<in> set (Lines c) \<Longrightarrow>
      hVar g \<noteq> VAR_INVALID \<and> pLine g \<noteq> NULL"
    by (simp add: registry_ok_def list_all_iff)
  from ex all show nn: "l \<noteq> NULL" by (auto simp: list_ex_iff)
  from ex obtain h where h: "FindVar_chips (GPIOChips pState) l = Some h"
    using FindVar_chips_None [of "GPIOChips pState" l] by auto
  with nn have fv: "FindVar pState l = h" by (simp add: FindVar_def)
  from FindVar_chips_Some [OF h] obtain i j where ij: "i < length (GPIOChips pState)"
    "j < length (Lines (GPIOChips pState ! i))"
    "pLine (Lines (GPIOChips pState ! i) ! j) = l" "hVar (Lines (GPIOChips pState ! i) ! j) = h"
    by blast
  then have "GPIOChips pState ! i \<in> set (GPIOChips pState)"
    "Lines (GPIOChips pState ! i) ! j \<in> set (Lines (GPIOChips pState ! i))"
    by simp_all
  from all [OF this] ij(4) fv show "FindVar pState l \<noteq> VAR_INVALID" by simp
  from ij fv show "\<exists>p. valid_pos pState p \<and> pLine (deref_GPIO pState p) = l \<and>
             hVar (deref_GPIO pState p) = FindVar pState l"
    by (intro exI [of _ "(i, j)"]) (simp add: valid_pos_def deref_GPIO_def)
qed

text \<open>The binder establishes \<open>registry_ok\<close>.\<close>

lemma registry_ok_append_line:
  assumes "registry_ok st" and "GPIOChips st \<noteq> []"
    and "hVar g \<noteq> VAR_INVALID" and "pLine g \<noteq> NULL"
  shows "registry_ok ((append_line st g)\<lparr>monitoredLines := monitored_after st g\<rparr>)"
proof -
  from assms(2) have sp: "GPIOChips st = butlast (GPIOChips st) @ [last (GPIOChips st)]"
    by simp
  have set': "set (GPIOChips (append_line st g)) =
      set (butlast (GPIOChips st)) \<union>
        {(last (GPIOChips st))\<lparr>Lines := Lines (last (GPIOChips st)) @ [g]\<rparr>}"
    by (simp add: append_line_def)
  have set0: "set (GPIOChips st) = set (butlast (GPIOChips st)) \<union> {last (GPIOChips st)}"
    by (subst sp) simp
  from assms(1) have all: "\<And>c x. c \<in> set (GPIOChips st) \<Longrightarrow> x \<in> set (Lines c) \<Longrightarrow>
      hVar x \<noteq> VAR_INVALID \<and> pLine x \<noteq> NULL"
    and mon: "\<And>l. l \<in> set (monitoredLines st) \<Longrightarrow>
      \<exists>c \<in> set (GPIOChips st). \<exists>x \<in> set (Lines c). pLine x = l"
    by (auto simp: registry_ok_def list_all_iff list_ex_iff)
  have l_in: "last (GPIOChips st) \<in> set (GPIOChips st)"
    using assms(2) by simp
  have b_in: "c \<in> set (GPIOChips st)" if "c \<in> set (butlast (GPIOChips st))" for c
    using that by (rule in_set_butlastD)
  have all': "hVar x \<noteq> VAR_INVALID \<and> pLine x \<noteq> NULL"
    if "c \<in> set (GPIOChips (append_line st g))" "x \<in> set (Lines c)" for c x
    using that assms(3,4) all [OF l_in] all [OF b_in] unfolding set' by auto
  have keep: "\<exists>c \<in> set (GPIOChips (append_line st g)). \<exists>x \<in> set (Lines c). pLine x = l"
    if "\<exists>c \<in> set (GPIOChips st). \<exists>x \<in> set (Lines c). pLine x = l" for l
    using that set0 unfolding set' by auto
  have new: "\<exists>c \<in> set (GPIOChips (append_line st g)). \<exists>x \<in> set (Lines c). pLine x = pLine g"
    unfolding set' by auto
  have mon': "\<exists>c \<in> set (GPIOChips (append_line st g)). \<exists>x \<in> set (Lines c). pLine x = l"
    if "l \<in> set (monitored_after st g)" for l
    using that mon keep new by (auto simp: monitored_after_def split: if_splits)
  show ?thesis
    using all' mon' by (auto simp: registry_ok_def list_all_iff list_ex_iff)
qed

lemma ParseLine_registry_ok:
  assumes "registry_ok st"
  shows "registry_ok (fst (snd (ParseLine e n st tr)))"
proof (cases "GPIOChips st = []")
  case True
  then have "CreateLine e n st tr = (None, st, tr)" by (simp add: CreateLine_def)
  then show ?thesis using assms by (simp add: ParseLine_def)
next
  case False
  obtain r st' tr' where p: "ParseLine e n st tr = (r, st', tr')" by (metis prod_cases3)
  from ParseLine_step [OF False p] assms registry_ok_append_line [OF assms False]
  have "registry_ok st'" by (auto split: if_splits)
  with p show ?thesis by simp
qed

lemma CreateChip_registry_ok:
  assumes "registry_ok st"
  shows "registry_ok (fst (snd (CreateChip e n st tr)))"
  using assms
  by (auto simp: CreateChip_def Let_def registry_ok_def list_all_iff list_ex_iff
      split: option.splits)

lemma CreateLines_registry_ok:
  assumes "registry_ok st"
  shows "registry_ok (fst (snd (CreateLines e stops n st tr)))"
proof (cases "JSON_Find n ''lines''")
  case None
  with assms show ?thesis by (simp add: CreateLines_def)
next
  case (Some a)
  show ?thesis
  proof (cases a)
    case (JSON_ARRAY ns)
    with Some have "CreateLines e stops n st tr =
        JSON_Iterate_nodes stops (ParseLine e) ns EOK st tr"
      by (simp add: CreateLines_def JSON_Iterate_def)
    with JSON_Iterate_nodes_invariant [of registry_ok st "ParseLine e" stops ns EOK tr]
      assms ParseLine_registry_ok
    show ?thesis by simp
  qed (use Some assms in \<open>simp_all add: CreateLines_def\<close>)
qed

lemma ParseChip_registry_ok:
  assumes "registry_ok st"
  shows "registry_ok (fst (snd (ParseChip e stops n st tr)))"
proof -
  obtain b st1 tr1 where c: "CreateChip e n st tr = (b, st1, tr1)" by (metis prod_cases3)
  with CreateChip_registry_ok [OF assms, of e n tr] have "registry_ok st1" by simp
  with c CreateLines_registry_ok [of st1 e stops n tr1] show ?thesis
    by (cases b) (simp_all add: ParseChip_def)
qed

lemma main_bind_registry_ok:
  "registry_ok (fst (snd (main_bind e stops config (main_state argv0 hvs) tr)))"
proof -
  have ok0: "registry_ok (main_state argv0 hvs)"
    by (simp add: registry_ok_def main_state_def)
  show ?thesis
  proof (cases "JSON_Find config ''gpiodef''")
    case None
    with ok0 show ?thesis by (simp add: main_bind_def JSON_Iterate_def)
  next
    case (Some a)
    show ?thesis
    proof (cases a)
      case (JSON_ARRAY ns)
      with Some have "main_bind e stops config (main_state argv0 hvs) tr =
          JSON_Iterate_nodes stops (ParseChip e stops) ns EOK (main_state argv0 hvs) tr"
        by (simp add: main_bind_def JSON_Iterate_def)
      with JSON_Iterate_nodes_invariant [of registry_ok "main_state argv0 hvs"
          "ParseChip e stops" stops ns EOK tr] ok0 ParseChip_registry_ok
      show ?thesis by simp
    qed (use Some ok0 in \<open>simp_all add: main_bind_def JSON_Iterate_def\<close>)
  qed
qed

text \<open>
  Claim C2.  In a registry the binder has left (\<open>registry_ok\<close>, see
  \<open>main_bind_registry_ok\<close>), for a monitored line whose edge event is read with
  success: the reverse lookup finds a valid variable, the variable of a line of the
  registry with that hardware handle, and the handler writes it once, as a \<^verbatim>\<open>UINT16\<close>,
  with 1 for a rising and 0 for a falling edge.  The only calls are the event read and
  that write: no variable is read.
\<close>

theorem HandleGPIOEvent_sets_variable:
  assumes "registry_ok pState"
    and "l \<in> set (monitoredLines pState)"
    and "gpiod_line_event_read_r e l = (0, ev)"
    and "var = \<lparr>vtype = VARTYPE_UINT16, len = 2,
                val_ui = (if ev = GPIOD_LINE_EVENT_RISING_EDGE then 1 else 0)\<rparr>"
    and "h = FindVar pState l"
  shows "h \<noteq> VAR_INVALID \<and>
         (\<exists>p. valid_pos pState p \<and> pLine (deref_GPIO pState p) = l \<and>
              hVar (deref_GPIO pState p) = h) \<and>
         HandleGPIOEvent e pState l tr =
           (VAR_Set_r e h var, tr @ [CALL_gpiod_line_event_read l, CALL_VAR_Set h var]) \<and>
         (ev = GPIOD_LINE_EVENT_FALLING_EDGE \<longrightarrow> val_ui var = 0) \<and>
         (ev = GPIOD_LINE_EVENT_RISING_EDGE \<longrightarrow> val_ui var = 1)"
proof -
  note m = registry_ok_monitored [OF assms(1,2)]
  have "HandleGPIOEvent e pState l tr =
      (VAR_Set_r e h var, tr @ [CALL_gpiod_line_event_read l, CALL_VAR_Set h var])"
    using m(1,2) assms(3,4,5) by (simp add: HandleGPIOEvent_def Let_def)
  moreover have "ev = GPIOD_LINE_EVENT_FALLING_EDGE \<longrightarrow> val_ui var = 0"
    using assms(4) by (simp add: gpiod_defs)
  moreover have "ev = GPIOD_LINE_EVENT_RISING_EDGE \<longrightarrow> val_ui var = 1"
    using assms(4) by simp
  ultimately show ?thesis using m(2,3) assms(5) by simp
qed

theorem HandleGPIOEvent_sets_variable_witness:
  "registry_ok ex_watch_state \<and>
   gpiowatch ex_watch_state \<and>
   226 \<in> set (monitoredLines ex_watch_state) \<and>
   gpiod_line_event_read_r ex_env 226 = (0, GPIOD_LINE_EVENT_FALLING_EDGE) \<and>
   FindVar ex_watch_state 226 = 3 \<and>
   HandleGPIOEvent ex_env ex_watch_state 226 [] =
     (EOK, [CALL_gpiod_line_event_read 226,
            CALL_VAR_Set 3 \<lparr>vtype = VARTYPE_UINT16, len = 2, val_ui = 0\<rparr>])"
proof -
  have ok: "registry_ok ex_watch_state"
    unfolding ex_watch_state_def by (rule main_bind_registry_ok)
  have w: "gpiowatch ex_watch_state" by code_simp
  have m: "monitoredLines ex_watch_state = [226]" by code_simp
  then have m': "226 \<in> set (monitoredLines ex_watch_state)" by simp
  have r: "gpiod_line_event_read_r ex_env 226 = (0, GPIOD_LINE_EVENT_FALLING_EDGE)"
    by (simp add: ex_env_def)
  have f: "FindVar ex_watch_state 226 = 3" by code_simp
  have s: "VAR_Set_r ex_env h v = EOK" for h v by (simp add: ex_env_def)
  from HandleGPIOEvent_sets_variable [OF ok m' r refl refl, of "[]"]
  show ?thesis using ok w m' r f by (simp add: s gpiod_defs)
qed

subsection \<open>The status report\<close>

declare show_nat.simps [simp del]

lemma is_digit_digit_char: "d < 10 \<Longrightarrow> is_digit (digit_char d)"
  by (simp add: is_digit_def digit_char_def)

lemma digit_val_digit_char: "d < 10 \<Longrightarrow> digit_val (digit_char d) = d"
  by (simp add: digit_val_def digit_char_def)

lemma show_nat_digits: "list_all is_digit (show_nat n)"
  by (induction n rule: show_nat.induct)
     (subst show_nat.simps, simp add: is_digit_digit_char)

lemma show_nat_nonempty: "show_nat n \<noteq> []"
  by (subst show_nat.simps) simp

lemma show_nat_value: "foldl (\<lambda>a c. 10 * a + digit_val c) 0 (show_nat n) = n"
proof (induction n rule: show_nat.induct)
  case (1 n)
  show ?case
  proof (cases "n < 10")
    case True
    then show ?thesis by (subst show_nat.simps) (simp add: digit_val_digit_char)
  next
    case False
    with 1 show ?thesis by (subst show_nat.simps) (simp add: digit_val_digit_char)
  qed
qed

lemma parse_digits_append:
  "list_all is_digit ds \<Longrightarrow> no_digit_start rest \<Longrightarrow>
     parse_digits acc (ds @ rest) = (foldl (\<lambda>a c. 10 * a + digit_val c) acc ds, rest)"
proof (induction ds arbitrary: acc)
  case Nil
  then show ?case by (cases rest) (simp_all add: no_digit_start_def)
next
  case (Cons d ds)
  then show ?case by simp
qed

lemma parse_digits_show_nat:
  "no_digit_start rest \<Longrightarrow> parse_digits 0 (show_nat n @ rest) = (n, rest)"
  by (simp add: parse_digits_append show_nat_digits show_nat_value)

lemma not_digit_minus: "\<not> is_digit (CHR ''-'')"
  by (simp add: is_digit_def)

lemma parse_num_printf_d:
  assumes "no_digit_start rest"
  shows "parse_num (printf_d i @ rest) = Some (i, rest)"
proof -
  obtain c cs where sn: "show_nat (nat \<bar>i\<bar>) = c # cs"
    using show_nat_nonempty [of "nat \<bar>i\<bar>"] by (cases "show_nat (nat \<bar>i\<bar>)") auto
  with show_nat_digits [of "nat \<bar>i\<bar>"] have dc: "is_digit c" by simp
  then have cm: "c \<noteq> CHR ''-''" using not_digit_minus by auto
  have pd: "parse_digits 0 (c # cs @ rest) = (nat \<bar>i\<bar>, rest)"
    using parse_digits_show_nat [OF assms, of "nat \<bar>i\<bar>"] sn by simp
  show ?thesis
  proof (cases "i < 0")
    case True
    then have "printf_d i = CHR ''-'' # c # cs"
      using sn by (simp add: printf_d_def abs_if)
    with pd dc True show ?thesis by (simp add: parse_num_def)
  next
    case False
    then have "printf_d i = c # cs"
      using sn by (simp add: printf_d_def abs_if)
    with pd dc cm False show ?thesis by (simp add: parse_num_def)
  qed
qed

lemma printf_d_start: "\<exists>c cs. printf_d i = c # cs \<and> (c = CHR ''-'' \<or> is_digit c)"
proof -
  obtain c cs where sn: "show_nat (nat \<bar>i\<bar>) = c # cs"
    using show_nat_nonempty [of "nat \<bar>i\<bar>"] by (cases "show_nat (nat \<bar>i\<bar>)") auto
  with show_nat_digits [of "nat \<bar>i\<bar>"] have "is_digit c" by simp
  with sn show ?thesis by (cases "i < 0") (simp_all add: printf_d_def abs_if)
qed

lemma parse_str_plain:
  "list_all plain_char x \<Longrightarrow> parse_str (x @ CHR 0x22 # rest) = Some (x, rest)"
  by (induction x) (auto simp: plain_char_def)

lemma value_start_not_ws: "value_start c \<Longrightarrow> \<not> is_ws c"
  by (auto simp: value_start_def is_ws_def is_digit_def)

lemma skip_ws_start: "\<not> is_ws c \<Longrightarrow> skip_ws (c # s) = c # s"
  by (simp add: skip_ws_def)

lemma skip_ws_blank: "skip_ws (CHR '' '' # s) = skip_ws s"
  by (simp add: skip_ws_def is_ws_def)

lemma parse_value_blank: "parse_value n (CHR '' '' # s) = parse_value n s"
  by (cases n) (simp_all add: skip_ws_blank)

lemma parse_members_blank: "parse_members n (CHR '' '' # s) = parse_members n s"
  by (cases n) (simp_all add: skip_ws_blank)

lemma json_show_start: "\<exists>c cs. json_show v = c # cs \<and> value_start c"
proof (cases v)
  case (JNum i)
  with printf_d_start [of i] show ?thesis by (auto simp: value_start_def)
qed (simp_all add: value_start_def)

lemma roundtripsD:
  "roundtrips v \<Longrightarrow> plain_json v \<Longrightarrow> fuel_of v \<le> n \<Longrightarrow> no_digit_start rest \<Longrightarrow>
     parse_value n (json_show v @ rest) = Some (v, rest)"
  by (simp add: roundtrips_def)

lemma no_digit_start_simps [simp]:
  "no_digit_start (CHR '','' # s)" "no_digit_start (CHR '']'' # s)"
  "no_digit_start (CHR ''}'' # s)" "no_digit_start []"
  by (simp_all add: no_digit_start_def is_digit_def)

lemma skip_ws_simps [simp]:
  "skip_ws (CHR '','' # s) = CHR '','' # s" "skip_ws (CHR '']'' # s) = CHR '']'' # s"
  "skip_ws (CHR ''}'' # s) = CHR ''}'' # s" "skip_ws (CHR '':'' # s) = CHR '':'' # s"
  "skip_ws (CHR 0x22 # s) = CHR 0x22 # s" "skip_ws (CHR '' '' # s) = skip_ws s"
  "skip_ws (CHR ''['' # s) = CHR ''['' # s" "skip_ws (CHR ''{'' # s) = CHR ''{'' # s"
  by (simp_all add: skip_ws_def is_ws_def)

lemma parse_elems_show:
  assumes "\<And>v. v \<in> set vs \<Longrightarrow> roundtrips v"
    and "list_all plain_json vs" and "vs \<noteq> []"
    and "sum_list (map (\<lambda>v. Suc (fuel_of v)) vs) \<le> n"
  shows "parse_elems n (show_sep '','' (map json_show vs) @ CHR '']'' # rest) = Some (vs, rest)"
  using assms
proof (induction vs arbitrary: n)
  case Nil
  then show ?case by simp
next
  case (Cons v vs)
  from Cons.prems(4) obtain m where n: "n = Suc m" by (cases n) auto
  with Cons.prems(4) have fv: "fuel_of v \<le> m" by simp
  from Cons.prems(1,2) have rv: "roundtrips v" "plain_json v" by simp_all
  show ?case
  proof (cases vs)
    case Nil
    with roundtripsD [OF rv fv, of "CHR '']'' # rest"] n show ?thesis by simp
  next
    case (Cons w ws)
    with Cons.prems(4) n have fs: "sum_list (map (\<lambda>v. Suc (fuel_of v)) vs) \<le> m" by simp
    from Cons.prems(1,2) Cons
    have ih: "parse_elems m (show_sep '','' (map json_show vs) @ CHR '']'' # rest) = Some (vs, rest)"
      by (intro Cons.IH fs) auto
    from roundtripsD [OF rv fv, of "CHR '','' # show_sep '','' (map json_show vs) @ CHR '']'' # rest"]
      ih n Cons
    show ?thesis by simp
  qed
qed

lemma parse_members_show:
  assumes "\<And>m. m \<in> set ms \<Longrightarrow> roundtrips (snd m)"
    and "list_all (\<lambda>m. list_all plain_char (fst m) \<and> plain_json (snd m)) ms" and "ms \<noteq> []"
    and "sum_list (map (\<lambda>m. Suc (fuel_of (snd m))) ms) \<le> n"
  shows "parse_members n (show_sep '', '' (map mem_show ms) @ CHR ''}'' # rest) = Some (ms, rest)"
  using assms
proof (induction ms arbitrary: n)
  case Nil
  then show ?case by simp
next
  case (Cons a ms)
  obtain k v where a: "a = (k, v)" by (cases a)
  from Cons.prems(4) obtain m where n: "n = Suc m" by (cases n) auto
  with Cons.prems(4) a have fv: "fuel_of v \<le> m" by simp
  from Cons.prems(1) [of a] a have rv1: "roundtrips v" by simp
  from Cons.prems(2) a have rv2: "plain_json v" and pk: "list_all plain_char k" by simp_all
  note rv = rv1 rv2
  have key: "parse_str (k @ CHR 0x22 # t) = Some (k, t)" for t
    using pk by (rule parse_str_plain)
  show ?case
  proof (cases ms)
    case Nil
    with roundtripsD [OF rv fv, of "CHR ''}'' # rest"] n a key show ?thesis
      by (simp add: parse_value_blank)
  next
    case (Cons b bs)
    with Cons.prems(4) n have fs: "sum_list (map (\<lambda>m. Suc (fuel_of (snd m))) ms) \<le> m" by simp
    from Cons.prems(1,2) Cons
    have ih: "parse_members m (show_sep '', '' (map mem_show ms) @ CHR ''}'' # rest) = Some (ms, rest)"
      by (intro Cons.IH fs) auto
    from roundtripsD [OF rv fv,
        of "CHR '','' # CHR '' '' # show_sep '', '' (map mem_show ms) @ CHR ''}'' # rest"]
      ih n a Cons key
    show ?thesis by (simp add: parse_value_blank parse_members_blank)
  qed
qed

lemma json_roundtrips: "roundtrips v"
proof (induction v)
  case (JNum i)
  show ?case unfolding roundtrips_def
  proof (intro impI allI)
    fix n rest
    assume f: "fuel_of (JNum i) \<le> n" and nd: "no_digit_start rest"
    from f obtain m where n: "n = Suc m" by (cases n) auto
    from printf_d_start [of i] obtain c cs where p: "printf_d i = c # cs"
      "c = CHR ''-'' \<or> is_digit c" by blast
    then have c: "\<not> is_ws c" "c \<noteq> CHR 0x22" "c \<noteq> CHR ''[''" "c \<noteq> CHR ''{''"
      by (auto simp: is_ws_def is_digit_def)
    from parse_num_printf_d [OF nd, of i] p(1)
    have "parse_num (c # cs @ rest) = Some (i, rest)" by simp
    with n p(1) c show "parse_value n (json_show (JNum i) @ rest) = Some (JNum i, rest)"
      by (simp add: skip_ws_start)
  qed
next
  case (JStr x)
  show ?case unfolding roundtrips_def
  proof (intro impI allI)
    fix n rest
    assume pl: "plain_json (JStr x)" and f: "fuel_of (JStr x) \<le> n"
    from f obtain m where n: "n = Suc m" by (cases n) auto
    from pl have "parse_str (x @ CHR 0x22 # rest) = Some (x, rest)"
      by (simp add: parse_str_plain)
    with n show "parse_value n (json_show (JStr x) @ rest) = Some (JStr x, rest)" by simp
  qed
next
  case (JArr vs)
  show ?case unfolding roundtrips_def
  proof (intro impI allI)
    fix n rest
    assume pl: "plain_json (JArr vs)" and f: "fuel_of (JArr vs) \<le> n"
    from f obtain m where n: "n = Suc m"
      and fs: "sum_list (map (\<lambda>v. Suc (fuel_of v)) vs) \<le> m"
      by (cases n) auto
    show "parse_value n (json_show (JArr vs) @ rest) = Some (JArr vs, rest)"
    proof (cases vs)
      case Nil
      with n show ?thesis by simp
    next
      case (Cons w ws)
      from json_show_start [of w] obtain c cs where w: "json_show w = c # cs" "value_start c"
        by blast
      then have c: "\<not> is_ws c" "c \<noteq> CHR '']''"
        by (auto simp: value_start_def is_ws_def is_digit_def)
      have "\<exists>t. show_sep '','' (map json_show vs) @ CHR '']'' # rest = c # t"
        using Cons w(1) by (cases ws) simp_all
      then obtain t where t: "show_sep '','' (map json_show vs) @ CHR '']'' # rest = c # t" ..
      from pl Cons JArr.IH
      have "parse_elems m (show_sep '','' (map json_show vs) @ CHR '']'' # rest) = Some (vs, rest)"
        by (intro parse_elems_show fs) simp_all
      with t have pe: "parse_elems m (c # t) = Some (vs, rest)" by simp
      have "json_show (JArr vs) @ rest = CHR ''['' # c # t" using t by simp
      with n c pe show ?thesis by (simp add: skip_ws_start)
    qed
  qed
next
  case (JObj ms)
  show ?case unfolding roundtrips_def
  proof (intro impI allI)
    fix n rest
    assume pl: "plain_json (JObj ms)" and f: "fuel_of (JObj ms) \<le> n"
    from f obtain m where n: "n = Suc m"
      and fs: "sum_list (map (\<lambda>m. Suc (fuel_of (snd m))) ms) \<le> m"
      by (cases n) auto
    from pl obtain a as where ms: "ms = a # as" by (cases ms) auto
    have "\<exists>t. show_sep '', '' (map mem_show ms) @ CHR ''}'' # rest = CHR 0x22 # t"
      using ms by (cases as) simp_all
    then obtain t where t: "show_sep '', '' (map mem_show ms) @ CHR ''}'' # rest = CHR 0x22 # t" ..
    have rt: "roundtrips (snd x)" if "x \<in> set ms" for x
    proof -
      obtain k v where x: "x = (k, v)" by (cases x)
      with that JObj.IH [of x v] show ?thesis by simp
    qed
    from pl
    have "parse_members m (show_sep '', '' (map mem_show ms) @ CHR ''}'' # rest) = Some (ms, rest)"
      by (intro parse_members_show fs rt) simp_all
    with t have pm: "parse_members m (CHR 0x22 # t) = Some (ms, rest)" by simp
    have "json_show (JObj ms) @ rest = CHR ''{'' # CHR '' '' # CHR 0x22 # t" using t by simp
    with n pm show "parse_value n (json_show (JObj ms) @ rest) = Some (JObj ms, rest)"
      by (simp add: parse_members_blank)
  qed
qed

lemma sum_le_show_sep:
  assumes "\<And>x. x \<in> set xs \<Longrightarrow> f x \<le> length (g x)" and "sep \<noteq> []"
  shows "sum_list (map (\<lambda>x. Suc (f x)) xs) \<le> Suc (length (show_sep sep (map g xs)))"
  using assms(1)
proof (induction xs)
  case Nil
  then show ?case by simp
next
  case (Cons x xs)
  then have fx: "f x \<le> length (g x)"
    and ih: "sum_list (map (\<lambda>x. Suc (f x)) xs) \<le> Suc (length (show_sep sep (map g xs)))"
    by simp_all
  from assms(2) have sl: "1 \<le> length sep" by (cases sep) simp_all
  show ?case
  proof (cases xs)
    case Nil
    with fx show ?thesis by simp
  next
    case (Cons y ys)
    with fx ih sl show ?thesis by simp
  qed
qed

lemma fuel_of_le_length: "fuel_of v \<le> length (json_show v)"
proof (induction v)
  case (JNum i)
  from printf_d_start [of i] show ?case by auto
next
  case (JStr x)
  show ?case by simp
next
  case (JArr vs)
  from sum_le_show_sep [of vs fuel_of json_show "'',''"] JArr.IH
  show ?case by simp
next
  case (JObj ms)
  have "fuel_of (snd x) \<le> length (mem_show x)" if "x \<in> set ms" for x
  proof -
    obtain k v where x: "x = (k, v)" by (cases x)
    with that JObj.IH [of x v] show ?thesis by simp
  qed
  from sum_le_show_sep [of ms "\<lambda>m. fuel_of (snd m)" mem_show "'', ''", OF this]
  show ?case by simp
qed

lemma json_parse_show:
  assumes "plain_json v"
  shows "json_parse (json_show v) = Some v"
proof -
  from roundtripsD [OF json_roundtrips assms fuel_of_le_length, of "[]"]
  show ?thesis by (simp add: json_parse_def skip_ws_def)
qed

text \<open>The report is the JSON text of the listing.\<close>

lemma PrintLineInfo_json:
  "fd \<noteq> - 1 \<Longrightarrow> pLine g \<noteq> NULL \<Longrightarrow> snd (PrintLineInfo e g fd) = json_show (line_json e g)"
  by (simp add: PrintLineInfo_def line_json_def)

lemma PrintStatus_lines_json:
  assumes "fd \<noteq> - 1" and "list_all (\<lambda>g. pLine g \<noteq> NULL) gs"
  shows "PrintStatus_lines e first gs fd =
           (if first \<or> gs = [] then [] else '','') @
           show_sep '','' (map json_show (map (line_json e) gs))"
  using assms(2)
proof (induction gs arbitrary: first)
  case Nil
  then show ?case by simp
next
  case (Cons g gs)
  then show ?case by (cases gs) (simp_all add: PrintLineInfo_json [OF assms(1)])
qed

lemma PrintStatus_chips_json:
  assumes "fd \<noteq> - 1"
    and "list_all (\<lambda>c. list_all (\<lambda>g. pLine g \<noteq> NULL) (Lines c)) cs"
  shows "PrintStatus_chips e first cs fd =
           (if first \<or> cs = [] then [] else '','') @
           show_sep '','' (map json_show (map (chip_json e) cs))"
  using assms(2)
proof (induction cs arbitrary: first)
  case Nil
  then show ?case by simp
next
  case (Cons c cs)
  then show ?case
    by (cases cs) (simp_all add: PrintStatus_lines_json [OF assms(1)] chip_json_def)
qed

lemma PrintStatus_json:
  assumes "fd \<noteq> - 1"
    and "list_all (\<lambda>c. list_all (\<lambda>g. pLine g \<noteq> NULL) (Lines c)) (GPIOChips pState)"
  shows "PrintStatus e pState fd = (EOK, json_show (status_json e pState))"
  using assms by (simp add: PrintStatus_def PrintStatus_chips_json status_json_def)

lemma plain_registry_json: "plain_registry e pState \<Longrightarrow> plain_json (status_json e pState)"
  by (auto simp: plain_registry_def plain_line_def status_json_def chip_json_def line_json_def
      list_all_iff plain_char_def split: option.splits)

lemma plain_registry_lines:
  "plain_registry e pState \<Longrightarrow>
     list_all (\<lambda>c. list_all (\<lambda>g. pLine g \<noteq> NULL) (Lines c)) (GPIOChips pState)"
  by (auto simp: plain_registry_def plain_line_def list_all_iff)

text \<open>
  Claim C9, as the claim states it, fails for a registry with a double quote in a name:
  the registry \<open>ex_status_B\<close>, of one line, prints the very text the registry
  \<open>ex_status_A\<close>, of two lines, prints, so the report read back lists two lines where
  one is bound.
\<close>

theorem PrintStatus_quote_counterexample:
  "PrintStatus ex_env ex_status_B 1 = PrintStatus ex_env ex_status_A 1 \<and>
   map (\<lambda>c. length (Lines c)) (GPIOChips ex_status_B) = [1] \<and>
   map (\<lambda>c. length (Lines c)) (GPIOChips ex_status_A) = [2] \<and>
   json_parse (snd (PrintStatus ex_env ex_status_B 1)) = Some (status_json ex_env ex_status_A) \<and>
   status_json ex_env ex_status_A \<noteq> status_json ex_env ex_status_B"
  by code_simp

text \<open>
  Claim C9, amended.  For a registry whose chip names, variable names and hardware line
  names hold no double quote, no backslash and no control character, and whose lines
  all have their hardware handle (as every line the binder creates has), the report
  written to a valid descriptor is JSON text that reads back as exactly the listing of
  the registry: an array with one object per chip, in the order of the registry, of the
  shape \<^verbatim>\<open>{"chip":..,"lines":[{"line":N,"name":"...","var":"..."}]}\<close>, the lines in
  the order of the chip.
\<close>

theorem PrintStatus_parses_back:
  assumes "fd \<noteq> - 1" and "plain_registry e pState"
  shows "fst (PrintStatus e pState fd) = EOK \<and>
         json_parse (snd (PrintStatus e pState fd)) = Some (status_json e pState) \<and>
         status_json e pState =
           JArr (map (\<lambda>c. JObj [(''chip'', JStr (chip_name c)),
                   (''lines'', JArr (map (\<lambda>g. JObj [(''line'', JNum (line_num g)),
                       (''name'', JStr (case gpiod_line_name_r e (pLine g) of
                                          Some n \<Rightarrow> n | None \<Rightarrow> ''unknown'')),
                       (''var'', JStr (name g))]) (Lines c)))]) (GPIOChips pState))"
proof -
  from PrintStatus_json [OF assms(1) plain_registry_lines [OF assms(2)]]
  have "PrintStatus e pState fd = (EOK, json_show (status_json e pState))" .
  moreover from plain_registry_json [OF assms(2)]
  have "json_parse (json_show (status_json e pState)) = Some (status_json e pState)"
    by (rule json_parse_show)
  ultimately show ?thesis
    by (simp add: status_json_def chip_json_def line_json_def fun_eq_iff)
qed


theorem PrintStatus_parses_back_witness:
  "(1 :: int) \<noteq> - 1 \<and> plain_registry ex_env ex_status_A \<and>
   snd (PrintStatus ex_env ex_status_A 1) =
     ''[{ \"chip\" : \"c\", \"lines\" : [{ \"line\" : 1, \"name\" : \"unknown\", \"var\" : \"a\"},{ \"line\" : 2, \"name\" : \"unknown\", \"var\" : \"b\"}]}]'' \<and>
   json_parse (snd (PrintStatus ex_env ex_status_A 1)) =
     Some (JArr [JObj [(''chip'', JStr ''c''),
       (''lines'', JArr [JObj [(''line'', JNum 1), (''name'', JStr ''unknown''), (''var'', JStr ''a'')],
                         JObj [(''line'', JNum 2), (''name'', JStr ''unknown''), (''var'', JStr ''b'')]])]])"
proof -
  have f: "(1 :: int) \<noteq> - 1" by simp
  have p: "plain_registry ex_env ex_status_A" by code_simp
  have t: "snd (PrintStatus ex_env ex_status_A 1) =
     ''[{ \"chip\" : \"c\", \"lines\" : [{ \"line\" : 1, \"name\" : \"unknown\", \"var\" : \"a\"},{ \"line\" : 2, \"name\" : \"unknown\", \"var\" : \"b\"}]}]''"
    by code_simp
  have j: "status_json ex_env ex_status_A =
     JArr [JObj [(''chip'', JStr ''c''),
       (''lines'', JArr [JObj [(''line'', JNum 1), (''name'', JStr ''unknown''), (''var'', JStr ''a'')],
                         JObj [(''line'', JNum 2), (''name'', JStr ''unknown''), (''var'', JStr ''b'')]])]]"
    by code_simp
  from PrintStatus_parses_back [OF f p] j t f p show ?thesis by simp
qed

end
